theory Spec2Isabelle
  imports Main "HOL-Library.Word"
begin

section \<open>The Go library functions used by subdir.go (Unix build)\<close>

text \<open>
  Go strings are byte sequences; they are modelled as \<open>string\<close> (a list of characters).
  \<open>os.PathSeparator\<close> (\<open>filepath.Separator\<close>) is the character \<open>/\<close> on Unix, written
  \<open>CHR ''/''\<close> throughout.
\<close>

text \<open>\<open>strings.HasPrefix(s, prefix)\<close>:
  \<^verbatim>\<open>len(s) >= len(prefix) && s[0:len(prefix)] == prefix\<close>.\<close>

definition strings_HasPrefix :: "string \<Rightarrow> string \<Rightarrow> bool" where
  "strings_HasPrefix s p = (length p \<le> length s \<and> take (length p) s = p)"

text \<open>\<open>strings.Index(s, substr)\<close>: the index of the first instance of \<open>substr\<close> in
  \<open>s\<close>; Go's \<open>-1\<close> is \<open>None\<close>.\<close>

fun strings_Index :: "string \<Rightarrow> string \<Rightarrow> nat option" where
  "strings_Index [] sub = (if sub = [] then Some 0 else None)"
| "strings_Index (c # cs) sub =
     (if strings_HasPrefix (c # cs) sub then Some 0
      else map_option Suc (strings_Index cs sub))"

text \<open>\<open>strings.Replace(s, old, new, 1)\<close>, the only way subdir.go calls it: \<open>s\<close> with the
  first instance of \<open>old\<close> replaced by \<open>new\<close>; \<open>s\<close> itself when \<open>old = new\<close> or when
  \<open>old\<close> does not occur.\<close>

definition strings_Replace_1 :: "string \<Rightarrow> string \<Rightarrow> string \<Rightarrow> string" where
  "strings_Replace_1 s old new =
     (if old = new then s
      else case strings_Index s old of
             None \<Rightarrow> s
           | Some j \<Rightarrow> take j s @ new @ drop (j + length old) s)"

text \<open>\<open>strings.Join(elems, "/")\<close>.\<close>

fun join_sep :: "string list \<Rightarrow> string" where
  "join_sep [] = []"
| "join_sep [x] = x"
| "join_sep (x # y # ys) = x @ CHR ''/'' # join_sep (y # ys)"

text \<open>The elements of a path: the pieces between separators (\<open>n\<close> separators give
  \<open>n + 1\<close> elements, some of them possibly empty).\<close>

fun split_sep :: "string \<Rightarrow> string list" where
  "split_sep [] = [[]]"
| "split_sep (c # cs) =
     (if c = CHR ''/'' then [] # split_sep cs
      else case split_sep cs of
             [] \<Rightarrow> [[c]]
           | x # xs \<Rightarrow> (c # x) # xs)"

text \<open>\<open>filepath.IsAbs(path)\<close> on Unix: \<^verbatim>\<open>strings.HasPrefix(path, "/")\<close>.\<close>

definition filepath_IsAbs :: "string \<Rightarrow> bool" where
  "filepath_IsAbs path = strings_HasPrefix path [CHR ''/'']"

text \<open>
  \<open>filepath.Clean(path)\<close>, by the rules of its documentation, applied element by element
  from left to right:
  \<^enum> multiple separators count as one (an empty element is dropped);
  \<^enum> each \<open>.\<close> element is dropped;
  \<^enum> an inner \<open>..\<close> element is dropped along with the non-\<open>..\<close> element before it;
  \<^enum> a \<open>..\<close> element that begins a rooted path is dropped; one that begins a
    non-rooted path is kept.
  The elements kept so far are held as a stack, the last one first. The result ends in a
  separator only if it is the root, and the empty result is \<open>.\<close>.
\<close>

definition clean_step :: "bool \<Rightarrow> string list \<Rightarrow> string \<Rightarrow> string list" where
  "clean_step rooted stk seg =
     (if seg = [] \<or> seg = ''.'' then stk
      else if seg = ''..'' then
        (case stk of
           [] \<Rightarrow> if rooted then [] else [seg]
         | e # rest \<Rightarrow> if e \<noteq> ''..'' then rest else if rooted then stk else seg # stk)
      else seg # stk)"

definition clean_elems :: "bool \<Rightarrow> string list \<Rightarrow> string list" where
  "clean_elems rooted segs = rev (foldl (clean_step rooted) [] segs)"

definition filepath_Clean :: "string \<Rightarrow> string" where
  "filepath_Clean path =
     (let rooted = filepath_IsAbs path;
          out = clean_elems rooted (split_sep path);
          s = (if rooted then [CHR ''/''] else []) @ join_sep out
      in if s = [] then ''.'' else s)"

text \<open>\<open>filepath.Join(elem...)\<close>: leading empty elements are ignored, the rest is joined
  with separators and cleaned; the result is empty when every element is empty.\<close>

definition filepath_Join :: "string list \<Rightarrow> string" where
  "filepath_Join elem =
     (case dropWhile (\<lambda>e. e = []) elem of
        [] \<Rightarrow> []
      | e # es \<Rightarrow> filepath_Clean (join_sep (e # es)))"

text \<open>\<open>filepath.Base(path)\<close>: the last element of \<open>path\<close>. Trailing separators are removed
  first; the empty path gives \<open>.\<close>, a path of separators only gives \<open>/\<close>.\<close>

definition filepath_Base :: "string \<Rightarrow> string" where
  "filepath_Base path =
     (if path = [] then ''.''
      else let stripped = rev (dropWhile (\<lambda>c. c = CHR ''/'') (rev path));
               lst = rev (takeWhile (\<lambda>c. c \<noteq> CHR ''/'') (rev stripped))
           in if lst = [] then [CHR ''/''] else lst)"

text \<open>
  \<open>filepath.Rel(basepath, targpath)\<close>. Its loop walks both cleaned paths element by
  element while the elements agree. \<open>rel_loop b t\<close> is that loop started with \<open>b\<close> the
  rest of the base from \<open>b0\<close> and \<open>t\<close> the rest of the target from \<open>t0\<close>; it returns
  \<open>base[b0:]\<close>, \<open>base[b0:bi]\<close> and \<open>targ[t0:]\<close> as they are when the loop ends.
\<close>

function rel_loop :: "string \<Rightarrow> string \<Rightarrow> string \<times> string \<times> string" where
  "rel_loop b t =
     (if b = [] \<or> t = [] then (b, [], t)
      else let eb = takeWhile (\<lambda>c. c \<noteq> CHR ''/'') b;
               et = takeWhile (\<lambda>c. c \<noteq> CHR ''/'') t
           in if et \<noteq> eb then (b, eb, t)
              else rel_loop (drop (Suc (length eb)) b) (drop (Suc (length et)) t))"
  by pat_completeness auto
termination
  by (relation "measure (\<lambda>(b, t). length b)") auto

declare rel_loop.simps [simp del]

datatype rel_error = RelError string string

definition filepath_Rel :: "string \<Rightarrow> string \<Rightarrow> rel_error + string" where
  "filepath_Rel basepath targpath =
     (let base = filepath_Clean basepath;
          targ = filepath_Clean targpath
      in if targ = base then Inr ''.''
         else let base = (if base = ''.'' then [] else base);
                  baseSlashed = (base \<noteq> [] \<and> hd base = CHR ''/'');
                  targSlashed = (targ \<noteq> [] \<and> hd targ = CHR ''/'')
              in if baseSlashed \<noteq> targSlashed then Inl (RelError targpath basepath)
                 else case rel_loop base targ of
                        (b, eb, t) \<Rightarrow>
                          if eb = ''..'' then Inl (RelError targpath basepath)
                          else if b \<noteq> [] then
                            Inr (''..''
                                 @ concat (replicate (count_list b CHR ''/'') ''/..'')
                                 @ (if t \<noteq> [] then CHR ''/'' # t else []))
                          else Inr t)"

section \<open>The billy interfaces that subdir.go uses\<close>

text \<open>\<open>os.FileMode\<close> is a \<open>uint32\<close>. The open flags are a Go \<open>int\<close>, which subdir.go only
  hands on.\<close>

type_synonym FileMode = "32 word"

text \<open>
  \<open>billy.FileInfo\<close> (\<open>os.FileInfo\<close>) is an interface: name, size, mode, modification time
  and directory flag. A value of it is either a descriptor made by the underlying
  filesystem or the adapter that \<open>newFileInfo\<close> builds around another value.
\<close>

record info =
  info_name :: string
  info_size :: int
  info_mode :: FileMode
  info_modtime :: int
  info_isdir :: bool

datatype FileInfo =
    Info info
  | fileInfo string FileInfo

text \<open>Modelled from the spec: \<open>newFileInfo\<close> and the methods of its result are in a file of
  the package that is not at hand. The adapter stores the name to report and the wrapped
  descriptor; \<open>Name\<close> gives the stored name and every other attribute is the wrapped
  descriptor's.\<close>

definition newFileInfo :: "string \<Rightarrow> FileInfo \<Rightarrow> FileInfo" where
  "newFileInfo filename fi = fileInfo filename fi"

fun Name :: "FileInfo \<Rightarrow> string" where
  "Name (Info i) = info_name i"
| "Name (fileInfo filename fi) = filename"

fun Size :: "FileInfo \<Rightarrow> int" where
  "Size (Info i) = info_size i"
| "Size (fileInfo filename fi) = Size fi"

fun Mode :: "FileInfo \<Rightarrow> FileMode" where
  "Mode (Info i) = info_mode i"
| "Mode (fileInfo filename fi) = Mode fi"

fun ModTime :: "FileInfo \<Rightarrow> int" where
  "ModTime (Info i) = info_modtime i"
| "ModTime (fileInfo filename fi) = ModTime fi"

fun IsDir :: "FileInfo \<Rightarrow> bool" where
  "IsDir (Info i) = info_isdir i"
| "IsDir (fileInfo filename fi) = IsDir fi"

text \<open>
  \<open>billy.File\<close> is an interface too: an open handle that reports a filename. A value of it
  is either a handle of the underlying filesystem (its filename and a descriptor number)
  or the handle that \<open>newFile\<close> builds around another one. The owner of a wrapping handle
  is a reference to the view that made it; a view over a given underlying filesystem is
  identified by its base, so the reference is held as that base.
\<close>

datatype File =
    Handle string nat
  | subdirFile string File string

fun Filename :: "File \<Rightarrow> string" where
  "Filename (Handle filename fd) = filename"
| "Filename (subdirFile owner f filename) = filename"

text \<open>
  Go's \<open>error\<close> is one type, shared by the view and by every filesystem under it. Its
  values are: \<open>ErrSymlinkNotSupported\<close>, the package variable of subdir.go, made once by
  \<open>errors.New\<close>; the error that \<open>filepath.Rel\<close> makes; and \<open>Backend e\<close>, an error value made
  outside this package (by the \<open>os\<close> package, by a storage backend). A filesystem may return
  any of them: a view that serves as the underlying filesystem of another view returns
  \<open>ErrSymlinkNotSupported\<close> itself.
\<close>

datatype 'e error =
    ErrSymlinkNotSupported
  | ErrRel rel_error
  | Backend 'e

text \<open>
  The underlying filesystem, \<open>billy.Filesystem\<close>: each operation takes the state of the
  storage and returns its result, an error or a value, with the state it leaves. \<open>Join\<close>
  is pure. The optional capability \<open>billy.Symlinker\<close> is present or not: \<open>fs_symlinker\<close>
  is the result of the type assertion \<^verbatim>\<open>s.underlying.(billy.Symlinker)\<close>.
\<close>

record ('st, 'e) Symlinker =
  sl_Symlink :: "string \<Rightarrow> string \<Rightarrow> 'st \<Rightarrow> ('e error + unit) \<times> 'st"
  sl_Readlink :: "string \<Rightarrow> 'st \<Rightarrow> ('e error + string) \<times> 'st"

record ('st, 'e) Filesystem =
  fs_Create :: "string \<Rightarrow> 'st \<Rightarrow> ('e error + File) \<times> 'st"
  fs_Open :: "string \<Rightarrow> 'st \<Rightarrow> ('e error + File) \<times> 'st"
  fs_OpenFile :: "string \<Rightarrow> int \<Rightarrow> FileMode \<Rightarrow> 'st \<Rightarrow> ('e error + File) \<times> 'st"
  fs_TempFile :: "string \<Rightarrow> string \<Rightarrow> 'st \<Rightarrow> ('e error + File) \<times> 'st"
  fs_Rename :: "string \<Rightarrow> string \<Rightarrow> 'st \<Rightarrow> ('e error + unit) \<times> 'st"
  fs_Remove :: "string \<Rightarrow> 'st \<Rightarrow> ('e error + unit) \<times> 'st"
  fs_MkdirAll :: "string \<Rightarrow> FileMode \<Rightarrow> 'st \<Rightarrow> ('e error + unit) \<times> 'st"
  fs_Stat :: "string \<Rightarrow> 'st \<Rightarrow> ('e error + FileInfo) \<times> 'st"
  fs_ReadDir :: "string \<Rightarrow> 'st \<Rightarrow> ('e error + FileInfo list) \<times> 'st"
  fs_Join :: "string list \<Rightarrow> string"
  fs_symlinker :: "('st, 'e) Symlinker option"

section \<open>subdir.go\<close>

record ('st, 'e) subdirFs =
  underlying :: "('st, 'e) Filesystem"
  base :: string

definition New :: "('st, 'e) Filesystem \<Rightarrow> string \<Rightarrow> ('st, 'e) subdirFs" where
  "New fs b = \<lparr>underlying = fs, base = b\<rparr>"

definition Base :: "('st, 'e) subdirFs \<Rightarrow> string" where
  "Base s = base s"

definition Join :: "('st, 'e) subdirFs \<Rightarrow> string list \<Rightarrow> string" where
  "Join s elem = fs_Join (underlying s) elem"

definition underlyingPath :: "('st, 'e) subdirFs \<Rightarrow> string \<Rightarrow> string" where
  "underlyingPath s filename = Join s [Base s, filename]"

text \<open>Modelled from the spec: \<open>newFile\<close> is in a file of the package that is not at hand.
  The handle it builds keeps the underlying handle and reports the filename it was
  given.\<close>

definition newFile :: "('st, 'e) subdirFs \<Rightarrow> File \<Rightarrow> string \<Rightarrow> File" where
  "newFile s f filename = subdirFile (Base s) f filename"

definition Create ::
  "('st, 'e) subdirFs \<Rightarrow> string \<Rightarrow> 'st \<Rightarrow> ('e error + File) \<times> 'st" where
  "Create s filename st =
     (case fs_Create (underlying s) (underlyingPath s filename) st of
        (Inl err, st') \<Rightarrow> (Inl err, st')
      | (Inr f, st') \<Rightarrow> (Inr (newFile s f filename), st'))"

definition Open ::
  "('st, 'e) subdirFs \<Rightarrow> string \<Rightarrow> 'st \<Rightarrow> ('e error + File) \<times> 'st" where
  "Open s filename st =
     (case fs_Open (underlying s) (underlyingPath s filename) st of
        (Inl err, st') \<Rightarrow> (Inl err, st')
      | (Inr f, st') \<Rightarrow> (Inr (newFile s f filename), st'))"

definition OpenFile ::
  "('st, 'e) subdirFs \<Rightarrow> string \<Rightarrow> int \<Rightarrow> FileMode \<Rightarrow> 'st \<Rightarrow> ('e error + File) \<times> 'st" where
  "OpenFile s filename flag mode st =
     (case fs_OpenFile (underlying s) (underlyingPath s filename) flag mode st of
        (Inl err, st') \<Rightarrow> (Inl err, st')
      | (Inr f, st') \<Rightarrow> (Inr (newFile s f filename), st'))"

definition TempFile ::
  "('st, 'e) subdirFs \<Rightarrow> string \<Rightarrow> string \<Rightarrow> 'st \<Rightarrow> ('e error + File) \<times> 'st" where
  "TempFile s dir prefix st =
     (case fs_TempFile (underlying s) (underlyingPath s dir) prefix st of
        (Inl err, st') \<Rightarrow> (Inl err, st')
      | (Inr f, st') \<Rightarrow>
          (Inr (newFile s f (Join s [dir, filepath_Base (Filename f)])), st'))"

text \<open>\<open>Rename\<close>, \<open>Remove\<close>, \<open>MkdirAll\<close> and \<open>Symlink\<close> return the result of their underlying
  call directly.\<close>

definition Rename ::
  "('st, 'e) subdirFs \<Rightarrow> string \<Rightarrow> string \<Rightarrow> 'st \<Rightarrow> ('e error + unit) \<times> 'st" where
  "Rename s from to st =
     fs_Rename (underlying s) (underlyingPath s from) (underlyingPath s to) st"

definition Remove ::
  "('st, 'e) subdirFs \<Rightarrow> string \<Rightarrow> 'st \<Rightarrow> ('e error + unit) \<times> 'st" where
  "Remove s path st = fs_Remove (underlying s) (underlyingPath s path) st"

definition MkdirAll ::
  "('st, 'e) subdirFs \<Rightarrow> string \<Rightarrow> FileMode \<Rightarrow> 'st \<Rightarrow> ('e error + unit) \<times> 'st" where
  "MkdirAll s filename perm st =
     (let fullpath = Join s [base s, filename]
      in fs_MkdirAll (underlying s) fullpath perm st)"

definition Stat ::
  "('st, 'e) subdirFs \<Rightarrow> string \<Rightarrow> 'st \<Rightarrow> ('e error + FileInfo) \<times> 'st" where
  "Stat s filename st =
     (let fullpath = underlyingPath s filename
      in case fs_Stat (underlying s) fullpath st of
           (Inl err, st') \<Rightarrow> (Inl err, st')
         | (Inr fi, st') \<Rightarrow> (Inr (newFileInfo (filepath_Base fullpath) fi), st'))"

text \<open>The loop of \<open>ReadDir\<close>: from index \<open>i\<close> on, each entry of the slice is replaced in
  place by its adapter.\<close>

function ReadDir_loop :: "string \<Rightarrow> nat \<Rightarrow> FileInfo list \<Rightarrow> FileInfo list" where
  "ReadDir_loop prefix i fis =
     (if i < length fis then
        (let rn = strings_Replace_1 (Name (fis ! i)) prefix []
         in ReadDir_loop prefix (Suc i) (fis[i := newFileInfo rn (fis ! i)]))
      else fis)"
  by pat_completeness auto
termination
  by (relation "measure (\<lambda>(prefix, i, fis). length fis - i)") auto

declare ReadDir_loop.simps [simp del]

definition ReadDir ::
  "('st, 'e) subdirFs \<Rightarrow> string \<Rightarrow> 'st \<Rightarrow> ('e error + FileInfo list) \<times> 'st" where
  "ReadDir s path st =
     (let prefix = underlyingPath s path
      in case fs_ReadDir (underlying s) prefix st of
           (Inl err, st') \<Rightarrow> (Inl err, st')
         | (Inr fis, st') \<Rightarrow> (Inr (ReadDir_loop prefix 0 fis), st'))"

definition Dir :: "('st, 'e) subdirFs \<Rightarrow> string \<Rightarrow> ('st, 'e) subdirFs" where
  "Dir s path = New (underlying s) (underlyingPath s path)"

definition Symlink ::
  "('st, 'e) subdirFs \<Rightarrow> string \<Rightarrow> string \<Rightarrow> 'st \<Rightarrow> ('e error + unit) \<times> 'st" where
  "Symlink s oldname newname st =
     (case fs_symlinker (underlying s) of
        None \<Rightarrow> (Inl ErrSymlinkNotSupported, st)
      | Some fs \<Rightarrow>
          (let oldname' = (if filepath_IsAbs oldname
                           then CHR ''/'' # underlyingPath s oldname else oldname);
               newname' = underlyingPath s newname
           in sl_Symlink fs oldname' newname' st))"

definition Readlink ::
  "('st, 'e) subdirFs \<Rightarrow> string \<Rightarrow> 'st \<Rightarrow> ('e error + string) \<times> 'st" where
  "Readlink s name st =
     (case fs_symlinker (underlying s) of
        None \<Rightarrow> (Inl ErrSymlinkNotSupported, st)
      | Some fs \<Rightarrow>
          (let fullpath = underlyingPath s name
           in case sl_Readlink fs fullpath st of
                (Inl err, st') \<Rightarrow> (Inl err, st')
              | (Inr target, st') \<Rightarrow>
                  if \<not> filepath_IsAbs target then (Inr target, st')
                  else (case filepath_Rel (CHR ''/'' # base s) target of
                          Inl err \<Rightarrow> (Inl (ErrRel err), st')
                        | Inr target' \<Rightarrow> (Inr (CHR ''/'' # target'), st'))))"

text \<open>
  A view is itself a \<open>billy.Filesystem\<close> (\<open>New\<close> returns it as one), and since \<open>Symlink\<close> and
  \<open>Readlink\<close> are methods of every view, the type assertion to \<open>billy.Symlinker\<close> succeeds
  on it. \<open>as_Filesystem s\<close> is the view \<open>s\<close> seen through these interfaces, as another
  view gets it for its underlying filesystem.
\<close>

definition as_Filesystem :: "('st, 'e) subdirFs \<Rightarrow> ('st, 'e) Filesystem" where
  "as_Filesystem s =
     \<lparr>fs_Create = Create s, fs_Open = Open s, fs_OpenFile = OpenFile s,
      fs_TempFile = TempFile s, fs_Rename = Rename s, fs_Remove = Remove s,
      fs_MkdirAll = MkdirAll s, fs_Stat = Stat s, fs_ReadDir = ReadDir s,
      fs_Join = Join s,
      fs_symlinker = Some \<lparr>sl_Symlink = Symlink s, sl_Readlink = Readlink s\<rparr>\<rparr>"

section \<open>What the spec asks of the names in a listing\<close>

text \<open>
  The renaming that the loop of \<open>ReadDir\<close> applies to one entry.
\<close>

definition rename_entry :: "string \<Rightarrow> FileInfo \<Rightarrow> FileInfo" where
  "rename_entry prefix fi = newFileInfo (strings_Replace_1 (Name fi) prefix []) fi"

text \<open>
  The spec's wording of the same step (section 4.1): strip the prefix only if it is a
  true path-prefix of the name, else leave the name unchanged. A prefix is a true
  path-prefix when the name starts with it and the prefix ends at an element boundary:
  at the end of the name, before a separator, or after the prefix's own final separator.
\<close>

definition true_path_prefix :: "string \<Rightarrow> string \<Rightarrow> bool" where
  "true_path_prefix prefix name =
     (prefix \<noteq> [] \<and> strings_HasPrefix name prefix \<and>
      (let rest = drop (length prefix) name
       in rest = [] \<or> hd rest = CHR ''/'' \<or> last prefix = CHR ''/''))"

definition spec_strip_prefix :: "string \<Rightarrow> string \<Rightarrow> string" where
  "spec_strip_prefix prefix name =
     (if true_path_prefix prefix name then drop (length prefix) name else name)"

section \<open>Path elements\<close>

text \<open>An element that \<open>filepath.Clean\<close> keeps wherever it stands: not empty, not \<open>.\<close>
  and not \<open>..\<close>.\<close>

definition normal :: "string \<Rightarrow> bool" where
  "normal seg = (seg \<noteq> [] \<and> seg \<noteq> ''.'' \<and> seg \<noteq> ''..'')"

text \<open>The elements of a path after cleaning it as a relative path, and whether the path
  uses \<open>..\<close> to climb above the directory it starts from: then, and only then, a \<open>..\<close>
  is left among them.\<close>

definition elems :: "string \<Rightarrow> string list" where
  "elems path = clean_elems False (split_sep path)"

definition escapes :: "string \<Rightarrow> bool" where
  "escapes path = (''..'' \<in> set (elems path))"

section \<open>A small underlying filesystem to run the view on\<close>

text \<open>
  The storage is a table of symbolic links and a count of the calls received. The
  directory \<open>project\<close> holds three entries; links are stored and read back verbatim;
  paths are joined with \<open>filepath.Join\<close>, as the filesystems of the repository do. Its
  errors are values of its own making, \<open>Backend ErrNotExist\<close> and \<open>Backend ErrExist\<close>.
\<close>

record storage =
  links :: "(string \<times> string) list"
  calls :: nat

datatype os_error = ErrNotExist | ErrExist

definition tick :: "storage \<Rightarrow> storage" where
  "tick st = st\<lparr>calls := Suc (calls st)\<rparr>"

definition entry :: "string \<Rightarrow> int \<Rightarrow> bool \<Rightarrow> FileInfo" where
  "entry n sz d =
     Info \<lparr>info_name = n, info_size = sz, info_mode = 420, info_modtime = 0, info_isdir = d\<rparr>"

definition example_entries :: "FileInfo list" where
  "example_entries = [entry ''project-other'' 3 False, entry ''my-project'' 5 False,
                      entry ''docs'' 0 True]"

definition example_symlinker :: "(storage, os_error) Symlinker" where
  "example_symlinker =
     \<lparr>sl_Symlink = (\<lambda>oldname newname st.
        (Inr (), tick (st\<lparr>links := (newname, oldname) # links st\<rparr>))),
      sl_Readlink = (\<lambda>name st.
        case map_of (links st) name of
          None \<Rightarrow> (Inl (Backend ErrNotExist), tick st)
        | Some target \<Rightarrow> (Inr target, tick st))\<rparr>"

definition example_exists :: "string \<Rightarrow> bool" where
  "example_exists p = (p \<in> set [''project'', ''project/project-other'',
                                ''project/my-project'', ''project/docs''])"

definition example_fs :: "(storage, os_error) Filesystem" where
  "example_fs =
     \<lparr>fs_Create = (\<lambda>p st.
        if p = ''project/docs'' then (Inl (Backend ErrExist), tick st) else (Inr (Handle p 3), tick st)),
      fs_Open = (\<lambda>p st.
        if example_exists p then (Inr (Handle p 3), tick st) else (Inl (Backend ErrNotExist), tick st)),
      fs_OpenFile = (\<lambda>p flag mode st.
        if example_exists p then (Inr (Handle p 3), tick st) else (Inl (Backend ErrNotExist), tick st)),
      fs_TempFile = (\<lambda>dir prefix st.
        if example_exists dir
        then (Inr (Handle (filepath_Join [dir, prefix @ ''042'']) 4), tick st)
        else (Inl (Backend ErrNotExist), tick st)),
      fs_Rename = (\<lambda>from to st.
        if example_exists from then (Inr (), tick st) else (Inl (Backend ErrNotExist), tick st)),
      fs_Remove = (\<lambda>p st.
        if example_exists p then (Inr (), tick st) else (Inl (Backend ErrNotExist), tick st)),
      fs_MkdirAll = (\<lambda>p perm st.
        if p = ''project/my-project'' then (Inl (Backend ErrExist), tick st) else (Inr (), tick st)),
      fs_Stat = (\<lambda>p st.
        if example_exists p
        then (Inr (entry (filepath_Base p) 0 (p = ''project'' \<or> p = ''project/docs'')), tick st)
        else (Inl (Backend ErrNotExist), tick st)),
      fs_ReadDir = (\<lambda>p st.
        if p = ''project'' then (Inr example_entries, tick st)
        else (Inl (Backend ErrNotExist), tick st)),
      fs_Join = filepath_Join,
      fs_symlinker = Some example_symlinker\<rparr>"

text \<open>The same filesystem without the symlink capability.\<close>

definition example_fs_plain :: "(storage, os_error) Filesystem" where
  "example_fs_plain = example_fs\<lparr>fs_symlinker := None\<rparr>"

definition empty_storage :: storage where
  "empty_storage = \<lparr>links = [], calls = 0\<rparr>"

section \<open>The library functions on the examples of their documentation and tests\<close>

lemma filepath_Clean_examples:
  "map filepath_Clean [''abc'', ''abc/def'', ''.'', ''..'', ''../../abc'', ''/abc'', ''/'', [],
        ''abc/'', ''./'', ''../../'', ''/abc/'']
     = [''abc'', ''abc/def'', ''.'', ''..'', ''../../abc'', ''/abc'', ''/'', ''.'',
        ''abc'', ''.'', ''../..'', ''/abc'']"
  "map filepath_Clean [''abc//def//ghi'', ''//abc'', ''//abc//'', ''abc/./def'', ''/./abc/def'',
        ''abc/.'']
     = [''abc/def/ghi'', ''/abc'', ''/abc'', ''abc/def'', ''/abc/def'', ''abc'']"
  "map filepath_Clean [''abc/def/ghi/../jkl'', ''abc/def/../ghi/../jkl'', ''abc/def/..'',
        ''abc/def/../..'', ''/abc/def/../..'', ''abc/def/../../..'', ''/abc/def/../../..'',
        ''abc/def/../../../ghi/jkl/../../../mno'', ''/../abc'']
     = [''abc/def/jkl'', ''abc/jkl'', ''abc'', ''.'', ''/'', ''..'', ''/'', ''../../mno'', ''/abc'']"
  "map filepath_Clean [''abc/./../def'', ''abc//./../def'', ''abc/../../././../def'']
     = [''def'', ''def'', ''../../def'']"
  by code_simp+

lemma filepath_Base_examples:
  "map filepath_Base [[], ''.'', ''/.'', ''/'', ''////'', ''x/'', ''abc'', ''abc/def'', ''a/b/.x'']
     = [''.'', ''.'', ''.'', ''/'', ''/'', ''x'', ''abc'', ''def'', ''.x'']"
  by code_simp

lemma filepath_Join_examples:
  "map filepath_Join [[], [[]], [''a''], [''a'', ''b''], [''a'', []], [[], ''b''], [''/'', ''a''],
        [''/'', []], [''//'', ''a''], [''/a'', ''b''], [''a/'', ''b''], [''a/'', []], [[], []]]
     = [[], [], ''a'', ''a/b'', ''a'', ''b'', ''/a'', ''/'', ''/a'', ''/a/b'', ''a/b'', ''a'', []]"
  by code_simp

lemma filepath_Rel_examples:
  "map (\<lambda>(b, t). filepath_Rel b t)
       [(''/a/b'', ''/a/b''), (''/a/b/.'', ''/a/b''), (''/ab/cd'', ''/ab/cde''),
        (''/ab/cd'', ''/ab/c''), (''/a/b'', ''/a/b/c/d''), (''/a/b'', ''/a/b/../c''),
        (''/a/b/../c'', ''/a/b''), (''/a/b/c'', ''/a/c/d''), (''/a/b'', ''/c/d''),
        (''/a/b/c/d'', ''/a/b''), (''/a/b/c/d/'', ''/a/b/''), (''/../../a/b'', ''/../../a/b/c/d'')]
     = map Inr [''.'', ''.'', ''../cde'', ''../c'', ''c/d'', ''../c'', ''../b'', ''../../c/d'',
                ''../../c/d'', ''../..'', ''../..'', ''c/d'']"
  "map (\<lambda>(b, t). filepath_Rel b t)
       [(''a/b'', ''a/b/c/d''), (''a/b/c'', ''a/c/d''), (''.'', ''a/b''), (''.'', ''..'')]
     = map Inr [''c/d'', ''../../c/d'', ''a/b'', ''..'']"
  "filepath_Rel ''..'' ''a'' = Inl (RelError ''a'' ''..'')"
  "filepath_Rel ''a'' ''/a'' = Inl (RelError ''/a'' ''a'')"
  "filepath_Rel ''/a'' ''a'' = Inl (RelError ''a'' ''/a'')"
  by code_simp+

lemma strings_Replace_1_examples:
  "strings_Replace_1 ''oink oink oink'' ''k'' ''ky'' = ''oinky oink oink''"
  "strings_Replace_1 ''banana'' ''x'' ''y'' = ''banana''"
  "strings_Replace_1 ''banana'' [] ''<>'' = ''<>banana''"
  "strings_Replace_1 ''banana'' ''an'' [] = ''bana''"
  by code_simp+

section \<open>Basic facts about the view\<close>

lemma underlying_New [simp]: "underlying (New fs b) = fs"
  by (simp add: New_def)

lemma base_New [simp]: "base (New fs b) = b"
  by (simp add: New_def)

section \<open>ReadDir\<close>

text \<open>The loop renames every entry from its start index on and touches nothing before
  it; run from index 0 it is a map over the listing.\<close>

lemma ReadDir_loop_eq:
  "ReadDir_loop prefix i fis = take i fis @ map (rename_entry prefix) (drop i fis)"
proof (induction prefix i fis rule: ReadDir_loop.induct)
  case (1 prefix i fis)
  show ?case
  proof (cases "i < length fis")
    case True
    let ?w = "newFileInfo (strings_Replace_1 (Name (fis ! i)) prefix []) (fis ! i)"
    have "ReadDir_loop prefix i fis = ReadDir_loop prefix (Suc i) (fis[i := ?w])"
      using True by (subst ReadDir_loop.simps) simp
    also have "\<dots> = take (Suc i) (fis[i := ?w])
                     @ map (rename_entry prefix) (drop (Suc i) (fis[i := ?w]))"
      using "1.IH" [OF True refl] .
    also have "take (Suc i) (fis[i := ?w]) = take i fis @ [?w]"
      using True by (simp add: take_Suc_conv_app_nth)
    also have "drop (Suc i) (fis[i := ?w]) = drop (Suc i) fis"
      by simp
    finally show ?thesis
      using True by (simp add: rename_entry_def Cons_nth_drop_Suc [symmetric])
  next
    case False
    then show ?thesis
      by (subst ReadDir_loop.simps) simp
  qed
qed

lemma ReadDir_loop_map: "ReadDir_loop prefix 0 fis = map (rename_entry prefix) fis"
  by (simp add: ReadDir_loop_eq)

lemma ReadDir_Inr:
  "ReadDir s path st = (Inr fis, st') \<longleftrightarrow>
     (\<exists>ufis. fs_ReadDir (underlying s) (underlyingPath s path) st = (Inr ufis, st')
        \<and> fis = map (rename_entry (underlyingPath s path)) ufis)"
  by (auto simp: ReadDir_def Let_def ReadDir_loop_map split: prod.splits sum.splits)

lemma example_ReadDir:
  "ReadDir (New example_fs ''project'') [] empty_storage =
     (Inr [fileInfo ''-other'' (entry ''project-other'' 3 False),
           fileInfo ''my-'' (entry ''my-project'' 5 False),
           fileInfo ''docs'' (entry ''docs'' 0 True)], \<lparr>links = [], calls = 1\<rparr>)"
  by code_simp

lemma example_root_path: "underlyingPath (New example_fs ''project'') [] = ''project''"
  by code_simp

text \<open>
  C10. When \<open>ReadDir\<close> succeeds, the underlying listing succeeded on the translated
  path, the returned list has the length of the underlying listing, and position by
  position each returned entry is the adapter around the underlying entry at that
  position: size, mode, modification time and directory flag are the underlying entry's,
  only the name is the adapter's own. Nothing is filtered out, added or reordered.
\<close>

theorem ReadDir_frame:
  assumes "ReadDir s path st = (Inr fis, st')"
  shows "\<exists>ufis. fs_ReadDir (underlying s) (underlyingPath s path) st = (Inr ufis, st')
           \<and> length fis = length ufis
           \<and> (\<forall>i < length ufis. \<exists>rn. fis ! i = newFileInfo rn (ufis ! i)
                \<and> Size (fis ! i) = Size (ufis ! i) \<and> Mode (fis ! i) = Mode (ufis ! i)
                \<and> ModTime (fis ! i) = ModTime (ufis ! i) \<and> IsDir (fis ! i) = IsDir (ufis ! i))"
proof -
  from assms obtain ufis where
    u: "fs_ReadDir (underlying s) (underlyingPath s path) st = (Inr ufis, st')" and
    f: "fis = map (rename_entry (underlyingPath s path)) ufis"
    by (auto simp: ReadDir_Inr)
  have "\<exists>rn. fis ! i = newFileInfo rn (ufis ! i)
          \<and> Size (fis ! i) = Size (ufis ! i) \<and> Mode (fis ! i) = Mode (ufis ! i)
          \<and> ModTime (fis ! i) = ModTime (ufis ! i) \<and> IsDir (fis ! i) = IsDir (ufis ! i)"
    if "i < length ufis" for i
    using that by (simp add: f rename_entry_def newFileInfo_def)
  with u f show ?thesis by simp
qed

theorem ReadDir_frame_witness:
  "ReadDir (New example_fs ''project'') [] empty_storage =
     (Inr [fileInfo ''-other'' (entry ''project-other'' 3 False),
           fileInfo ''my-'' (entry ''my-project'' 5 False),
           fileInfo ''docs'' (entry ''docs'' 0 True)], \<lparr>links = [], calls = 1\<rparr>)
   \<and> (\<exists>ufis. fs_ReadDir example_fs ''project'' empty_storage
                = (Inr ufis, \<lparr>links = [], calls = 1\<rparr>)
         \<and> length ufis = 3)"
proof -
  have r: "ReadDir (New example_fs ''project'') [] empty_storage =
     (Inr [fileInfo ''-other'' (entry ''project-other'' 3 False),
           fileInfo ''my-'' (entry ''my-project'' 5 False),
           fileInfo ''docs'' (entry ''docs'' 0 True)], \<lparr>links = [], calls = 1\<rparr>)"
    by (rule example_ReadDir)
  from ReadDir_frame [OF r] show ?thesis
    using r by (auto simp: example_root_path)
qed

text \<open>
  C1. The name of a returned entry is the underlying name with the first occurrence of
  the translated prefix removed wherever it stands (\<open>strings.Replace\<close>), not only where
  it is a true path-prefix. With base \<open>project\<close>, the listing of the view's root renames
  the entries \<open>project-other\<close> and \<open>my-project\<close> to \<open>-other\<close> and \<open>my-\<close>, although \<open>project\<close>
  is a true path-prefix of neither; stripping as the spec words it leaves both names as
  they are.
\<close>

theorem ReadDir_replaces_substring:
  "map_sum id (map Name) (fst (ReadDir (New example_fs ''project'') [] empty_storage))
     = Inr [''-other'', ''my-'', ''docs'']
   \<and> map (spec_strip_prefix (underlyingPath (New example_fs ''project'') []))
         (map Name example_entries)
     = [''project-other'', ''my-project'', ''docs'']"
  by code_simp

section \<open>Symlink and Readlink\<close>

lemma example_links:
  "Symlink (New example_fs ''project'') ''/docs/a'' ''abs'' empty_storage =
     (Inr (), \<lparr>links = [(''project/abs'', ''/project/docs/a'')], calls = 1\<rparr>)"
  "Symlink (New example_fs ''project'') ''docs/a'' ''rel'' empty_storage =
     (Inr (), \<lparr>links = [(''project/rel'', ''docs/a'')], calls = 1\<rparr>)"
  by code_simp+

lemma as_Filesystem_symlinker:
  "fs_symlinker (as_Filesystem s) = Some \<lparr>sl_Symlink = Symlink s, sl_Readlink = Readlink s\<rparr>"
  by (simp add: as_Filesystem_def)

lemma as_Filesystem_Join: "fs_Join (as_Filesystem s) = Join s"
  by (simp add: as_Filesystem_def)

lemma example_docs_link: "filepath_Join [''docs'', ''link''] = ''docs/link''"
  by code_simp

lemma example_readlinks:
  "Readlink (New example_fs ''project'') ''abs''
      \<lparr>links = [(''project/abs'', ''/project/docs/a'')], calls = 1\<rparr> =
     (Inr ''/docs/a'', \<lparr>links = [(''project/abs'', ''/project/docs/a'')], calls = 2\<rparr>)"
  "Readlink (New example_fs ''project'') ''rel''
      \<lparr>links = [(''project/rel'', ''docs/a'')], calls = 1\<rparr> =
     (Inr ''docs/a'', \<lparr>links = [(''project/rel'', ''docs/a'')], calls = 2\<rparr>)"
  by code_simp+

text \<open>
  C3, as amended. When the underlying filesystem does not implement the symlink
  capability, \<open>Symlink\<close> and \<open>Readlink\<close> return \<open>ErrSymlinkNotSupported\<close> for all arguments and
  leave the state of the storage as it was: the underlying filesystem is not called. The
  error differs from every error value made outside the package, the not-found error of a
  backend among them. It is not set apart from every underlying error: an underlying
  filesystem that is itself a view returns this same value.
\<close>

theorem symlink_not_supported:
  assumes "fs_symlinker (underlying s) = None"
  shows "Symlink s oldname newname st = (Inl ErrSymlinkNotSupported, st)
       \<and> Readlink s name st = (Inl ErrSymlinkNotSupported, st)
       \<and> (\<forall>e. ErrSymlinkNotSupported \<noteq> Backend e)"
  using assms by (simp add: Symlink_def Readlink_def)

theorem symlink_not_supported_witness:
  "fs_symlinker (underlying (New example_fs_plain ''project'')) = None
   \<and> Symlink (New example_fs_plain ''project'') ''/docs'' ''link'' empty_storage
       = (Inl ErrSymlinkNotSupported, empty_storage)
   \<and> Readlink (New example_fs_plain ''project'') ''link'' empty_storage
       = (Inl ErrSymlinkNotSupported, empty_storage)
   \<and> ErrSymlinkNotSupported \<noteq> Backend ErrNotExist"
proof -
  have h: "fs_symlinker (underlying (New example_fs_plain ''project'')) = None"
    by (simp add: example_fs_plain_def)
  from symlink_not_supported [OF h, of "''/docs''" "''link''" empty_storage "''link''"]
  show ?thesis using h by simp
qed

text \<open>
  The claim as the spec words it fails where views are stacked. Take the view with base
  \<open>project\<close> over the filesystem without the capability, and over it, as its underlying
  filesystem, a second view with base \<open>docs\<close>. The underlying filesystem of the second view
  implements the capability, its \<open>Symlink\<close> is called, and the error it returns is
  \<open>ErrSymlinkNotSupported\<close>: an underlying error that is the dedicated error itself, and
  that the second view hands on as it is.
\<close>

theorem symlink_error_shared_counterexample:
  "fs_symlinker (underlying (New example_fs_plain ''project'')) = None
   \<and> fs_symlinker (underlying (New (as_Filesystem (New example_fs_plain ''project'')) ''docs''))
       = Some \<lparr>sl_Symlink = Symlink (New example_fs_plain ''project''),
               sl_Readlink = Readlink (New example_fs_plain ''project'')\<rparr>
   \<and> underlyingPath (New (as_Filesystem (New example_fs_plain ''project'')) ''docs'') ''link''
       = ''docs/link''
   \<and> sl_Symlink \<lparr>sl_Symlink = Symlink (New example_fs_plain ''project''),
                   sl_Readlink = Readlink (New example_fs_plain ''project'')\<rparr>
         ''target'' ''docs/link'' empty_storage
       = (Inl ErrSymlinkNotSupported, empty_storage)
   \<and> Symlink (New (as_Filesystem (New example_fs_plain ''project'')) ''docs'')
         ''target'' ''link'' empty_storage
       = (Inl ErrSymlinkNotSupported, empty_storage)"
proof -
  have h: "fs_symlinker (underlying (New example_fs_plain ''project'')) = None"
    by (simp add: example_fs_plain_def)
  have c: "fs_symlinker (underlying (New (as_Filesystem (New example_fs_plain ''project'')) ''docs''))
             = Some \<lparr>sl_Symlink = Symlink (New example_fs_plain ''project''),
                     sl_Readlink = Readlink (New example_fs_plain ''project'')\<rparr>"
    by (simp add: as_Filesystem_symlinker)
  have p: "underlyingPath (New (as_Filesystem (New example_fs_plain ''project'')) ''docs'') ''link''
             = ''docs/link''"
    by (simp add: underlyingPath_def Join_def Base_def as_Filesystem_Join example_fs_plain_def
        example_fs_def example_docs_link)
  have i: "Symlink (New example_fs_plain ''project'') ''target'' ''docs/link'' empty_storage
             = (Inl ErrSymlinkNotSupported, empty_storage)"
    using h by (simp add: Symlink_def)
  have r: "\<not> filepath_IsAbs ''target''"
    by code_simp
  have o: "Symlink (New (as_Filesystem (New example_fs_plain ''project'')) ''docs'')
             ''target'' ''link'' empty_storage
           = (Inl ErrSymlinkNotSupported, empty_storage)"
    by (simp add: Symlink_def [of "New (as_Filesystem (New example_fs_plain ''project'')) ''docs''"]
        Let_def as_Filesystem_symlinker p r i)
  show ?thesis
    using h c p i o by simp
qed

text \<open>
  C4. When \<open>Readlink\<close> succeeds, the underlying filesystem has the capability and its
  \<open>Readlink\<close> returned a target for the translated name. A relative target is returned
  unchanged; for an absolute target the result is the separator followed by the path of
  the target relative to separator + base, as \<open>filepath.Rel\<close> computes it.
\<close>

theorem Readlink_target:
  assumes "Readlink s name st = (Inr r, st')"
  shows "\<exists>fs target. fs_symlinker (underlying s) = Some fs
           \<and> sl_Readlink fs (underlyingPath s name) st = (Inr target, st')
           \<and> (if filepath_IsAbs target
                then \<exists>rel. filepath_Rel (CHR ''/'' # base s) target = Inr rel
                       \<and> r = CHR ''/'' # rel
                else r = target)"
  using assms
  by (auto simp: Readlink_def Let_def split: option.splits prod.splits sum.splits if_splits)

theorem Readlink_target_witness:
  "Readlink (New example_fs ''project'') ''abs''
      \<lparr>links = [(''project/abs'', ''/project/docs/a'')], calls = 1\<rparr> =
     (Inr ''/docs/a'', \<lparr>links = [(''project/abs'', ''/project/docs/a'')], calls = 2\<rparr>)
   \<and> (\<exists>fs target. fs_symlinker (underlying (New example_fs ''project'')) = Some fs
         \<and> sl_Readlink fs (underlyingPath (New example_fs ''project'') ''abs'')
              \<lparr>links = [(''project/abs'', ''/project/docs/a'')], calls = 1\<rparr>
            = (Inr target, \<lparr>links = [(''project/abs'', ''/project/docs/a'')], calls = 2\<rparr>)
         \<and> (if filepath_IsAbs target
              then \<exists>rel. filepath_Rel (CHR ''/'' # base (New example_fs ''project'')) target
                            = Inr rel \<and> ''/docs/a'' = CHR ''/'' # rel
              else ''/docs/a'' = target))"
  using Readlink_target [OF example_readlinks(1)] example_readlinks(1) by blast

text \<open>
  C5. With the capability present, \<open>Symlink\<close> is the underlying \<open>Symlink\<close> called once with
  \<open>newname\<close> translated by \<open>underlyingPath\<close> and with \<open>oldname\<close> either unmodified, when it
  is relative, or replaced by separator + \<open>underlyingPath oldname\<close>, when it is absolute.
\<close>

theorem Symlink_translation:
  assumes "fs_symlinker (underlying s) = Some fs"
  shows "Symlink s oldname newname st =
           sl_Symlink fs
             (if filepath_IsAbs oldname then CHR ''/'' # underlyingPath s oldname
              else oldname)
             (underlyingPath s newname) st"
  using assms by (simp add: Symlink_def Let_def)

theorem Symlink_translation_witness:
  "fs_symlinker (underlying (New example_fs ''project'')) = Some example_symlinker
   \<and> Symlink (New example_fs ''project'') ''/docs/a'' ''abs'' empty_storage
       = sl_Symlink example_symlinker ''/project/docs/a'' ''project/abs'' empty_storage
   \<and> Symlink (New example_fs ''project'') ''docs/a'' ''rel'' empty_storage
       = sl_Symlink example_symlinker ''docs/a'' ''project/rel'' empty_storage"
proof -
  have h: "fs_symlinker (underlying (New example_fs ''project'')) = Some example_symlinker"
    by (simp add: example_fs_def)
  have p: "underlyingPath (New example_fs ''project'') ''/docs/a'' = ''project/docs/a''"
    "underlyingPath (New example_fs ''project'') ''abs'' = ''project/abs''"
    "underlyingPath (New example_fs ''project'') ''rel'' = ''project/rel''"
    "filepath_IsAbs ''/docs/a''" "\<not> filepath_IsAbs ''docs/a''"
    by code_simp+
  from Symlink_translation [OF h, of "''/docs/a''" "''abs''" empty_storage]
       Symlink_translation [OF h, of "''docs/a''" "''rel''" empty_storage]
  show ?thesis using h by (simp add: p)
qed

section \<open>Dir and TempFile\<close>

text \<open>
  C7. \<open>Dir s sub\<close> is a view whose base is \<open>underlyingPath s sub\<close> and whose underlying
  filesystem is the underlying filesystem of \<open>s\<close>; after any number of nested \<open>Dir\<close>
  calls the underlying filesystem is still the original one.
\<close>

theorem Dir_flat:
  "Base (Dir s sub) = underlyingPath s sub
   \<and> underlying (Dir s sub) = underlying s
   \<and> underlying (foldl Dir s subs) = underlying s"
proof -
  have "underlying (foldl Dir s subs) = underlying s"
    by (induction subs arbitrary: s) (simp_all add: Dir_def)
  then show ?thesis
    by (simp add: Dir_def Base_def)
qed

lemma example_TempFile:
  "TempFile (New example_fs ''project'') ''docs'' ''tmp'' empty_storage =
     (Inr (subdirFile ''project'' (Handle ''project/docs/tmp042'' 4) ''docs/tmp042''),
      \<lparr>links = [], calls = 1\<rparr>)"
  by code_simp

text \<open>
  C8. When \<open>TempFile\<close> succeeds, the underlying \<open>TempFile\<close> returned a handle \<open>f\<close> for the
  translated directory, and the handle returned by the view is built by \<open>newFile\<close> with the
  name \<open>Join(dir, filepath.Base(f.Filename()))\<close>, which is the filename it reports.
\<close>

theorem TempFile_name:
  assumes "TempFile s dir prefix st = (Inr h, st')"
  shows "\<exists>f. fs_TempFile (underlying s) (underlyingPath s dir) prefix st = (Inr f, st')
           \<and> h = newFile s f (Join s [dir, filepath_Base (Filename f)])
           \<and> Filename h = Join s [dir, filepath_Base (Filename f)]"
  using assms
  by (auto simp: TempFile_def newFile_def split: prod.splits sum.splits)

theorem TempFile_name_witness:
  "TempFile (New example_fs ''project'') ''docs'' ''tmp'' empty_storage =
     (Inr (subdirFile ''project'' (Handle ''project/docs/tmp042'' 4) ''docs/tmp042''),
      \<lparr>links = [], calls = 1\<rparr>)
   \<and> (\<exists>f. fs_TempFile example_fs ''project/docs'' ''tmp'' empty_storage
             = (Inr f, \<lparr>links = [], calls = 1\<rparr>)
         \<and> ''docs/tmp042'' = Join (New example_fs ''project'') [''docs'', filepath_Base (Filename f)])"
proof -
  have p: "underlyingPath (New example_fs ''project'') ''docs'' = ''project/docs''"
    by code_simp
  from TempFile_name [OF example_TempFile] show ?thesis
    using example_TempFile by (auto simp: p)
qed

section \<open>Paths as lists of elements\<close>

lemma split_sep_not_Nil [simp]: "split_sep p \<noteq> []"
  by (induction p) (auto split: list.splits)

lemma split_sep_no_sep: "seg \<in> set (split_sep p) \<Longrightarrow> CHR ''/'' \<notin> set seg"
  by (induction p arbitrary: seg) (auto split: list.splits if_splits)

lemma split_sep_append: "split_sep (a @ CHR ''/'' # b) = split_sep a @ split_sep b"
  by (induction a) (auto split: list.splits)

lemma split_sep_single: "CHR ''/'' \<notin> set x \<Longrightarrow> split_sep x = [x]"
  by (induction x) auto

lemma join_sep_Cons: "join_sep (x # L) = (if L = [] then x else x @ CHR ''/'' # join_sep L)"
  by (cases L) auto

lemma join_sep_snoc: "join_sep (L @ [l]) = (if L = [] then l else join_sep L @ CHR ''/'' # l)"
  by (induction L rule: join_sep.induct) auto

lemma join_sep_append:
  "L \<noteq> [] \<Longrightarrow> M \<noteq> [] \<Longrightarrow> join_sep (L @ M) = join_sep L @ CHR ''/'' # join_sep M"
  by (induction L rule: join_sep.induct) (auto simp: join_sep_Cons)

lemma split_join:
  "L \<noteq> [] \<Longrightarrow> \<forall>x \<in> set L. CHR ''/'' \<notin> set x \<Longrightarrow> split_sep (join_sep L) = L"
proof (induction L rule: join_sep.induct)
  case 1
  then show ?case by simp
next
  case (2 x)
  then show ?case by (simp add: split_sep_single)
next
  case (3 x y ys)
  then show ?case by (simp add: split_sep_append split_sep_single)
qed

lemma join_sep_eq_Nil:
  "\<forall>x \<in> set L. x \<noteq> [] \<Longrightarrow> join_sep L = [] \<longleftrightarrow> L = []"
  by (induction L rule: join_sep.induct) auto

lemma filepath_Base_last:
  assumes "l \<noteq> []" "CHR ''/'' \<notin> set l" "q = [] \<or> last q = CHR ''/''"
  shows "filepath_Base (q @ l) = l"
proof -
  have hd: "hd (rev l) \<noteq> CHR ''/''"
    using assms(1,2) by (metis hd_rev last_in_set)
  have "dropWhile (\<lambda>c. c = CHR ''/'') (rev l @ rev q) = rev l @ rev q"
    using assms(1) hd by (cases "rev l") auto
  moreover have "takeWhile (\<lambda>c. c \<noteq> CHR ''/'') (rev l @ rev q) = rev l"
  proof (cases q rule: rev_cases)
    case Nil
    then show ?thesis using assms(2) by (auto simp: takeWhile_eq_all_conv)
  next
    case (snoc q' c)
    with assms(3) have "c = CHR ''/''" by simp
    with snoc show ?thesis using assms(2) by (auto simp: takeWhile_tail)
  qed
  ultimately show ?thesis
    using assms(1) by (simp add: filepath_Base_def Let_def)
qed

section \<open>Cleaning a path\<close>

lemma normal_simps [simp]: "\<not> normal []" "\<not> normal ''.''" "\<not> normal ''..''"
  by (simp_all add: normal_def)

lemma elem_cases:
  obtains (skip) "seg = [] \<or> seg = ''.''" | (up) "seg = ''..''" | (norm) "normal seg"
  unfolding normal_def by blast

lemma normal_not_dotdot: "normal x \<Longrightarrow> x \<noteq> ''..''"
  by (simp add: normal_def)

lemma clean_step_skip [simp]: "clean_step r stk [] = stk" "clean_step r stk ''.'' = stk"
  by (simp_all add: clean_step_def)

lemma clean_step_normal: "normal seg \<Longrightarrow> clean_step r stk seg = seg # stk"
  by (auto simp: clean_step_def normal_def)

lemma clean_fold_no_dotdot:
  "''..'' \<notin> set ys \<Longrightarrow> foldl (clean_step r) stk ys = rev (filter normal ys) @ stk"
proof (induction ys arbitrary: stk)
  case Nil
  then show ?case by simp
next
  case (Cons y ys)
  then show ?case
    by (cases y rule: elem_cases) (auto simp: clean_step_normal)
qed

lemma clean_fold_normals:
  "\<forall>x \<in> set L. normal x \<Longrightarrow> foldl (clean_step r) stk L = rev L @ stk"
proof -
  assume a: "\<forall>x \<in> set L. normal x"
  then have "''..'' \<notin> set L" by auto
  moreover from a have "filter normal L = L" by (simp add: filter_id_conv)
  ultimately show ?thesis by (simp add: clean_fold_no_dotdot)
qed

lemma clean_step_dotdot_rooted:
  "clean_step True stk ''..'' = (case stk of [] \<Rightarrow> [] | e # rest \<Rightarrow> if e \<noteq> ''..'' then rest else stk)"
  by (simp add: clean_step_def split: list.splits)

lemma clean_step_dotdot_unrooted:
  "clean_step False stk ''..'' =
     (case stk of [] \<Rightarrow> [''..''] | e # rest \<Rightarrow> if e \<noteq> ''..'' then rest else ''..'' # stk)"
  by (simp add: clean_step_def split: list.splits)

lemma clean_step_rooted_normal:
  assumes "\<forall>x \<in> set stk. normal x"
  shows "\<forall>x \<in> set (clean_step True stk seg). normal x"
proof (cases seg rule: elem_cases)
  case skip
  then show ?thesis using assms by auto
next
  case up
  then show ?thesis using assms
    by (cases stk) (auto simp: clean_step_dotdot_rooted dest: normal_not_dotdot)
next
  case norm
  then show ?thesis using assms by (simp add: clean_step_normal)
qed

lemma clean_fold_rooted_normal:
  "\<forall>x \<in> set stk. normal x \<Longrightarrow> \<forall>x \<in> set (foldl (clean_step True) stk segs). normal x"
proof (induction segs arbitrary: stk)
  case Nil
  then show ?case by simp
next
  case (Cons seg segs)
  from clean_step_rooted_normal [OF Cons.prems]
  have "\<forall>x \<in> set (clean_step True stk seg). normal x" .
  from Cons.IH [OF this] show ?case by (simp only: foldl_Cons)
qed

lemma clean_step_subset: "set (clean_step r stk seg) \<subseteq> insert seg (set stk)"
proof (cases seg rule: elem_cases)
  case skip
  then show ?thesis by auto
next
  case up
  then show ?thesis
    by (cases r; cases stk)
       (auto simp: clean_step_dotdot_rooted clean_step_dotdot_unrooted)
next
  case norm
  then show ?thesis by (auto simp: clean_step_normal)
qed

lemma clean_fold_subset: "set (foldl (clean_step r) stk segs) \<subseteq> set stk \<union> set segs"
proof (induction segs arbitrary: stk)
  case Nil
  then show ?case by simp
next
  case (Cons seg segs)
  have "set (foldl (clean_step r) (clean_step r stk seg) segs)
          \<subseteq> set (clean_step r stk seg) \<union> set segs"
    by (rule Cons.IH)
  with clean_step_subset [of r stk seg] show ?case by auto
qed

lemma clean_elems_no_sep:
  "x \<in> set (clean_elems r (split_sep p)) \<Longrightarrow> CHR ''/'' \<notin> set x"
  using clean_fold_subset [of r "[]" "split_sep p"] split_sep_no_sep [of x p]
  by (auto simp: clean_elems_def)

lemma clean_elems_rooted_normal:
  "x \<in> set (clean_elems True segs) \<Longrightarrow> normal x"
  using clean_fold_rooted_normal [of "[]" segs] by (simp add: clean_elems_def)

lemma clean_fold_dotdots_rooted:
  "foldl (clean_step True) [] (replicate k ''..'') = []"
  by (induction k) (simp_all add: clean_step_dotdot_rooted)

text \<open>Cleaning a path as a relative path leaves some \<open>..\<close> elements followed by normal
  elements; cleaning it as a rooted path leaves the normal elements alone.\<close>

lemma clean_fold_unrooted_shape:
  "\<exists>N k. foldl (clean_step False) [] segs = N @ replicate k ''..''
       \<and> foldl (clean_step True) [] segs = N \<and> (\<forall>x \<in> set N. normal x)"
proof (induction segs rule: rev_induct)
  case Nil
  have "foldl (clean_step False) [] [] = [] @ replicate 0 ''..''" by simp
  then show ?case by auto
next
  case (snoc seg segs)
  then obtain N k where
    u: "foldl (clean_step False) [] segs = N @ replicate k ''..''" and
    r: "foldl (clean_step True) [] segs = N" and
    n: "\<forall>x \<in> set N. normal x"
    by blast
  show ?case
  proof (cases seg rule: elem_cases)
    case skip
    then have "foldl (clean_step False) [] (segs @ [seg]) = N @ replicate k ''..''"
      "foldl (clean_step True) [] (segs @ [seg]) = N"
      using u r by auto
    with n show ?thesis by blast
  next
    case norm
    then have "foldl (clean_step False) [] (segs @ [seg]) = (seg # N) @ replicate k ''..''"
      "foldl (clean_step True) [] (segs @ [seg]) = seg # N"
      using u r by (auto simp: clean_step_normal)
    moreover have "\<forall>x \<in> set (seg # N). normal x" using n norm by simp
    ultimately show ?thesis by blast
  next
    case up
    show ?thesis
    proof (cases N)
      case Nil
      have "foldl (clean_step False) [] (segs @ [seg]) = [] @ replicate (Suc k) ''..''"
        using u up Nil
        by (cases k) (simp_all add: clean_step_dotdot_unrooted replicate_append_same)
      moreover have "foldl (clean_step True) [] (segs @ [seg]) = []"
        using r up Nil by (simp add: clean_step_dotdot_rooted)
      moreover have "\<forall>x \<in> set ([]::string list). normal x" by simp
      ultimately show ?thesis by blast
    next
      case (Cons e N')
      with n have e: "e \<noteq> ''..''" by (auto dest: normal_not_dotdot)
      have "foldl (clean_step False) [] (segs @ [seg]) = N' @ replicate k ''..''"
        using u up Cons e by (simp add: clean_step_dotdot_unrooted)
      moreover have "foldl (clean_step True) [] (segs @ [seg]) = N'"
        using r up Cons e by (simp add: clean_step_dotdot_rooted)
      moreover have "\<forall>x \<in> set N'. normal x" using n Cons by simp
      ultimately show ?thesis by blast
    qed
  qed
qed

lemma reclean_rooted:
  "foldl (clean_step True) [] (rev (foldl (clean_step r) [] segs))
     = foldl (clean_step True) [] segs"
proof -
  obtain N k where
    u: "foldl (clean_step False) [] segs = N @ replicate k ''..''" and
    t: "foldl (clean_step True) [] segs = N" and
    n: "\<forall>x \<in> set N. normal x"
    using clean_fold_unrooted_shape by blast
  from n have rn: "\<forall>x \<in> set (rev N). normal x" by simp
  show ?thesis
  proof (cases r)
    case True
    then show ?thesis using t clean_fold_normals [OF rn] by simp
  next
    case False
    then have "foldl (clean_step True) [] (rev (foldl (clean_step r) [] segs))
        = foldl (clean_step True) (foldl (clean_step True) [] (replicate k ''..'')) (rev N)"
      using u by simp
    also have "\<dots> = N"
      using clean_fold_normals [OF rn] by (simp add: clean_fold_dotdots_rooted)
    finally show ?thesis using t by simp
  qed
qed

lemma IsAbs_Cons [simp]: "filepath_IsAbs (c # p) \<longleftrightarrow> c = CHR ''/''"
  by (simp add: filepath_IsAbs_def strings_HasPrefix_def)

lemma IsAbs_Nil [simp]: "\<not> filepath_IsAbs []"
  by (simp add: filepath_IsAbs_def strings_HasPrefix_def)

lemma Clean_rooted:
  "filepath_IsAbs p \<Longrightarrow>
     filepath_Clean p = CHR ''/'' # join_sep (clean_elems True (split_sep p))"
  by (simp add: filepath_Clean_def Let_def)

lemma Clean_slash_Cons:
  "filepath_Clean (CHR ''/'' # p) = CHR ''/'' # join_sep (clean_elems True (split_sep p))"
  by (simp add: Clean_rooted clean_elems_def)

lemma clean_step_keeps_dotdot:
  "''..'' \<in> set stk \<Longrightarrow> ''..'' \<in> set (clean_step False stk seg)"
proof (cases seg rule: elem_cases)
  case skip
  then show ?thesis if "''..'' \<in> set stk" using that by auto
next
  case up
  then show ?thesis if "''..'' \<in> set stk" using that
    by (cases stk) (auto simp: clean_step_dotdot_unrooted)
next
  case norm
  then show ?thesis if "''..'' \<in> set stk" using that by (simp add: clean_step_normal)
qed

lemma clean_step_nonempty:
  "\<forall>x \<in> set stk. x \<noteq> [] \<Longrightarrow> \<forall>x \<in> set (clean_step r stk seg). x \<noteq> []"
  using clean_step_subset [of r stk seg]
  by (cases "seg = []") auto

lemma clean_fold_nonempty:
  "\<forall>x \<in> set stk. x \<noteq> [] \<Longrightarrow> \<forall>x \<in> set (foldl (clean_step r) stk segs). x \<noteq> []"
proof (induction segs arbitrary: stk)
  case Nil
  then show ?case by simp
next
  case (Cons seg segs)
  from Cons.IH [OF clean_step_nonempty [OF Cons.prems]] show ?case
    by (simp only: foldl_Cons)
qed

lemma clean_step_on_top:
  assumes "''..'' \<notin> set U" "''..'' \<notin> set (clean_step False U seg)"
  shows "clean_step r (U @ stk) seg = clean_step False U seg @ stk"
proof (cases seg rule: elem_cases)
  case skip
  then show ?thesis by auto
next
  case norm
  then show ?thesis by (simp add: clean_step_normal)
next
  case up
  show ?thesis
  proof (cases U)
    case Nil
    with assms(2) up show ?thesis by (simp add: clean_step_dotdot_unrooted)
  next
    case (Cons e U')
    with assms(1) have "e \<noteq> ''..''" by auto
    with Cons up show ?thesis
      by (cases r) (simp_all add: clean_step_dotdot_unrooted clean_step_dotdot_rooted)
  qed
qed

lemma clean_fold_on_top:
  "''..'' \<notin> set (foldl (clean_step False) [] ys) \<Longrightarrow>
     foldl (clean_step r) stk ys = foldl (clean_step False) [] ys @ stk"
proof (induction ys rule: rev_induct)
  case Nil
  show ?case by simp
next
  case (snoc y ys)
  let ?U = "foldl (clean_step False) [] ys"
  from snoc.prems have after: "''..'' \<notin> set (clean_step False ?U y)" by simp
  with clean_step_keeps_dotdot [of ?U y] have before: "''..'' \<notin> set ?U" by blast
  from snoc.IH [OF before] have "foldl (clean_step r) stk ys = ?U @ stk" .
  then show ?case
    using clean_step_on_top [OF before after, of r stk] by simp
qed

lemma elems_no_sep: "x \<in> set (elems p) \<Longrightarrow> CHR ''/'' \<notin> set x"
  unfolding elems_def by (rule clean_elems_no_sep)

lemma elems_nonempty: "x \<in> set (elems p) \<Longrightarrow> x \<noteq> []"
  using clean_fold_nonempty [of "[]" False "split_sep p"]
  by (auto simp: elems_def clean_elems_def)

lemma clean_elems_append:
  "\<not> escapes p \<Longrightarrow>
     clean_elems r (pre @ split_sep p) = clean_elems r pre @ elems p"
  using clean_fold_on_top [of "split_sep p" r "foldl (clean_step r) [] pre"]
  by (simp add: escapes_def elems_def clean_elems_def)

lemma clean_elems_rooted_eq:
  "\<not> escapes p \<Longrightarrow> clean_elems True (split_sep p) = elems p"
  using clean_elems_append [of p True "[]"] by (simp add: clean_elems_def)

lemma elems_normal:
  assumes "\<not> escapes p" "x \<in> set (elems p)"
  shows "normal x"
  using assms clean_elems_rooted_normal [of x "split_sep p"]
  by (simp add: clean_elems_rooted_eq)

section \<open>The loop of filepath.Rel\<close>

lemma takeWhile_elem:
  "CHR ''/'' \<notin> set x \<Longrightarrow> takeWhile (\<lambda>c. c \<noteq> CHR ''/'') (x @ CHR ''/'' # r) = x"
  by (induction x) auto

lemma takeWhile_whole:
  "CHR ''/'' \<notin> set x \<Longrightarrow> takeWhile (\<lambda>c. c \<noteq> CHR ''/'') x = x"
  by (induction x) auto

lemma takeWhile_join_Cons:
  "CHR ''/'' \<notin> set x \<Longrightarrow> takeWhile (\<lambda>c. c \<noteq> CHR ''/'') (join_sep (x # L)) = x"
  by (simp add: join_sep_Cons takeWhile_elem takeWhile_whole)

lemma drop_join_Cons: "drop (Suc (length x)) (join_sep (x # L)) = join_sep L"
  by (simp add: join_sep_Cons)

lemma rel_loop_common:
  assumes "\<forall>x \<in> set L. x \<noteq> [] \<and> CHR ''/'' \<notin> set x"
    and "\<forall>x \<in> set M. x \<noteq> []" and "M \<noteq> []"
  shows "rel_loop (join_sep L) (join_sep (L @ M)) = ([], [], join_sep M)"
  using assms(1)
proof (induction L)
  case Nil
  show ?case by (subst rel_loop.simps) simp
next
  case (Cons x L)
  then have x: "x \<noteq> []" "CHR ''/'' \<notin> set x" by auto
  have b: "join_sep (x # L) \<noteq> []" using x by (simp add: join_sep_Cons)
  have t: "join_sep ((x # L) @ M) \<noteq> []" using x by (simp add: join_sep_Cons)
  have eb: "takeWhile (\<lambda>c. c \<noteq> CHR ''/'') (join_sep (x # L)) = x"
    using x by (rule_tac takeWhile_join_Cons)
  have et: "takeWhile (\<lambda>c. c \<noteq> CHR ''/'') (join_sep ((x # L) @ M)) = x"
    using x takeWhile_join_Cons [of x "L @ M"] by simp
  have "rel_loop (join_sep (x # L)) (join_sep ((x # L) @ M))
          = rel_loop (drop (Suc (length x)) (join_sep (x # L)))
                     (drop (Suc (length x)) (join_sep ((x # L) @ M)))"
    using b t by (subst rel_loop.simps) (simp only: eb et Let_def if_False simp_thms)
  also have "\<dots> = rel_loop (join_sep L) (join_sep (L @ M))"
    using drop_join_Cons [of x L] drop_join_Cons [of x "L @ M"] by simp
  also have "\<dots> = ([], [], join_sep M)"
    using Cons by simp
  finally show ?case .
qed

lemma rel_loop_elem:
  assumes "\<forall>x \<in> set L. CHR ''/'' \<notin> set x"
    and "rel_loop (join_sep L) t = (b', eb, t')"
  shows "eb = [] \<or> eb \<in> set L"
  using assms
proof (induction L arbitrary: t)
  case Nil
  then show ?case by (subst (asm) rel_loop.simps) simp
next
  case (Cons x L)
  then have x: "CHR ''/'' \<notin> set x" by simp
  have eb: "takeWhile (\<lambda>c. c \<noteq> CHR ''/'') (join_sep (x # L)) = x"
    using x by (rule takeWhile_join_Cons)
  show ?case
  proof (cases "join_sep (x # L) = [] \<or> t = []")
    case True
    with Cons.prems(2) show ?thesis by (subst (asm) rel_loop.simps) auto
  next
    case False
    show ?thesis
    proof (cases "takeWhile (\<lambda>c. c \<noteq> CHR ''/'') t = x")
      case ne: False
      with False Cons.prems(2) have "eb = x"
        by (subst (asm) rel_loop.simps) (simp add: eb Let_def)
      then show ?thesis by simp
    next
      case eq: True
      with False Cons.prems(2)
      have "rel_loop (drop (Suc (length x)) (join_sep (x # L))) (drop (Suc (length x)) t)
              = (b', eb, t')"
        by (subst (asm) rel_loop.simps) (simp add: eb Let_def)
      then have "rel_loop (join_sep L) (drop (Suc (length x)) t) = (b', eb, t')"
        by (simp only: drop_join_Cons)
      from Cons.IH [OF _ this] Cons.prems(1) show ?thesis by auto
    qed
  qed
qed

lemma rel_loop_slash:
  "rel_loop (CHR ''/'' # b) (CHR ''/'' # t) = rel_loop b t"
  by (subst rel_loop.simps) simp

text \<open>\<open>filepath.Rel\<close> of two rooted paths never fails: the element at which the loop stops
  is an element of the cleaned base, and a cleaned rooted path has no \<open>..\<close> element.\<close>

lemma Rel_rooted_total:
  assumes "filepath_IsAbs target"
  shows "\<exists>rel. filepath_Rel (CHR ''/'' # b) target = Inr rel"
proof -
  define Lb where "Lb = clean_elems True (split_sep b)"
  define Lt where "Lt = clean_elems True (split_sep target)"
  have cb: "filepath_Clean (CHR ''/'' # b) = CHR ''/'' # join_sep Lb"
    by (simp add: Clean_slash_Cons Lb_def)
  have ct: "filepath_Clean target = CHR ''/'' # join_sep Lt"
    using assms by (simp add: Clean_rooted Lt_def)
  have nb: "\<forall>x \<in> set Lb. CHR ''/'' \<notin> set x"
    using clean_elems_no_sep by (auto simp: Lb_def)
  obtain b' eb t' where r: "rel_loop (join_sep Lb) (join_sep Lt) = (b', eb, t')"
    by (cases "rel_loop (join_sep Lb) (join_sep Lt)") auto
  from rel_loop_elem [OF nb r] have "eb = [] \<or> eb \<in> set Lb" .
  then have "eb \<noteq> ''..''"
    using clean_elems_rooted_normal [of eb "split_sep b"]
    by (auto simp: Lb_def dest: normal_not_dotdot)
  then show ?thesis
    by (simp add: filepath_Rel_def cb ct Let_def rel_loop_slash r)
qed

section \<open>Join, Base and Rel on paths that stay inside the base\<close>

lemma Join_two:
  "filepath_Join [b, p] =
     (if b = [] then (if p = [] then [] else filepath_Clean p)
      else filepath_Clean (b @ CHR ''/'' # p))"
  by (simp add: filepath_Join_def)

lemma elems_Nil [simp]: "elems [] = []"
  by (simp add: elems_def clean_elems_def)

lemma IsAbs_append: "b \<noteq> [] \<Longrightarrow> filepath_IsAbs (b @ x) = filepath_IsAbs b"
  by (cases b) simp_all

lemma join_elems_not_Nil: "elems p \<noteq> [] \<Longrightarrow> join_sep (L @ elems p) \<noteq> []"
proof -
  assume a: "elems p \<noteq> []"
  then obtain E l where e: "elems p = E @ [l]" by (cases "elems p" rule: rev_cases) auto
  then have "l \<noteq> []" using elems_nonempty [of l p] by simp
  moreover have "join_sep (L @ elems p) = join_sep ((L @ E) @ [l])" using e by simp
  ultimately show ?thesis by (simp only: join_sep_snoc) auto
qed

text \<open>Joining a base and a path that does not escape: the elements of the path follow
  the cleaned elements of the base.\<close>

lemma Join_form:
  fixes b p :: string
  assumes "\<not> escapes p" "elems p \<noteq> []"
  defines "rt \<equiv> (if b = [] then filepath_IsAbs p else filepath_IsAbs b)"
    and "pre \<equiv> (if b = [] then [] else split_sep b)"
  shows "filepath_Join [b, p] =
           (if rt then ''/'' else []) @ join_sep (clean_elems rt pre @ elems p)"
proof (cases "b = []")
  case True
  with assms(2) have p: "p \<noteq> []" by auto
  have "clean_elems rt (split_sep p) = clean_elems rt pre @ elems p"
    using clean_elems_append [OF assms(1), of rt "[]"] True by (simp add: pre_def)
  then show ?thesis
    using True p join_elems_not_Nil [OF assms(2), of "clean_elems rt pre"]
    by (simp add: Join_two filepath_Clean_def Let_def rt_def)
next
  case False
  have "clean_elems rt (split_sep (b @ CHR ''/'' # p)) = clean_elems rt pre @ elems p"
    using clean_elems_append [OF assms(1), of rt "split_sep b"] False
    by (simp add: pre_def split_sep_append)
  then show ?thesis
    using False join_elems_not_Nil [OF assms(2), of "clean_elems rt pre"]
    by (simp add: Join_two filepath_Clean_def Let_def rt_def IsAbs_append)
qed

text \<open>The last element of the joined path is the last element of the path.\<close>

lemma Base_Join_last:
  assumes "\<not> escapes p" "elems p \<noteq> []"
  shows "filepath_Base (filepath_Join [b, p]) = last (elems p)"
proof -
  define rt where "rt = (if b = [] then filepath_IsAbs p else filepath_IsAbs b)"
  define pre where "pre = (if b = [] then [] else split_sep b)"
  define l where "l = last (elems p)"
  define L where "L = clean_elems rt pre @ butlast (elems p)"
  have e: "clean_elems rt pre @ elems p = L @ [l]"
    using assms(2) by (simp add: L_def l_def)
  have l: "l \<noteq> []" "CHR ''/'' \<notin> set l"
    using assms(2) elems_nonempty [of l p] elems_no_sep [of l p] by (simp_all add: l_def)
  define q where "q = (if rt then ''/'' else []) @ (if L = [] then [] else join_sep L @ ''/'')"
  have "filepath_Join [b, p] = (if rt then ''/'' else []) @ join_sep (L @ [l])"
    using Join_form [OF assms, of b] e by (simp only: rt_def pre_def)
  also have "\<dots> = q @ l"
    by (simp add: q_def join_sep_snoc)
  finally have "filepath_Join [b, p] = q @ l" .
  moreover have "q = [] \<or> last q = CHR ''/''"
    by (simp add: q_def)
  ultimately show ?thesis
    using filepath_Base_last [OF l] by (simp add: l_def)
qed

lemma Join_root:
  assumes "elems p = []" "b \<noteq> []"
  shows "filepath_Join [b, p] = filepath_Clean b"
proof -
  have ne: "\<not> escapes p" using assms(1) by (simp add: escapes_def)
  have "clean_elems r (split_sep (b @ CHR ''/'' # p)) = clean_elems r (split_sep b)" for r
    using clean_elems_append [OF ne, of r "split_sep b"] assms(1)
    by (simp add: split_sep_append)
  then show ?thesis
    using assms(2) by (simp add: Join_two filepath_Clean_def Let_def IsAbs_append)
qed

text \<open>Relative to separator + base, the absolute form of the joined path is the path's
  own elements.\<close>

lemma join_sep_append_neq:
  assumes "\<forall>x \<in> set (L @ M). x \<noteq> [] \<and> CHR ''/'' \<notin> set x" "M \<noteq> []"
  shows "join_sep (L @ M) \<noteq> join_sep L"
proof
  assume eq: "join_sep (L @ M) = join_sep L"
  show False
  proof (cases "L = []")
    case True
    with eq assms show False by (simp add: join_sep_eq_Nil)
  next
    case False
    have "split_sep (join_sep (L @ M)) = L @ M"
      using assms by (intro split_join) auto
    moreover have "split_sep (join_sep L) = L"
      using assms False by (intro split_join) auto
    ultimately show False using eq assms(2) by simp
  qed
qed

lemma Rel_Join:
  assumes "filepath_IsAbs t" "\<not> escapes t" "elems t \<noteq> []"
  shows "filepath_Rel (CHR ''/'' # b) (CHR ''/'' # filepath_Join [b, t]) = Inr (join_sep (elems t))"
proof -
  define rt where "rt = (if b = [] then filepath_IsAbs t else filepath_IsAbs b)"
  define pre where "pre = (if b = [] then [] else split_sep b)"
  define Lb where "Lb = clean_elems True (split_sep b)"
  define L where "L = clean_elems rt pre @ elems t"
  have j: "filepath_Join [b, t] = (if rt then ''/'' else []) @ join_sep L"
    using Join_form [OF assms(2,3), of b] by (simp only: rt_def pre_def L_def)
  have pre_sub: "set pre \<subseteq> set (split_sep b)" by (simp add: pre_def)
  have L_ne: "L \<noteq> []" using assms(3) by (simp add: L_def)
  have L_sep: "\<forall>x \<in> set L. CHR ''/'' \<notin> set x"
  proof
    fix x assume "x \<in> set L"
    then consider "x \<in> set (clean_elems rt pre)" | "x \<in> set (elems t)" by (auto simp: L_def)
    then show "CHR ''/'' \<notin> set x"
    proof cases
      case 1
      then have "x \<in> set (split_sep b)"
        using clean_fold_subset [of rt "[]" pre] pre_sub by (auto simp: clean_elems_def)
      then show ?thesis by (rule split_sep_no_sep)
    next
      case 2
      then show ?thesis by (rule elems_no_sep)
    qed
  qed
  have split_j: "clean_elems True (split_sep (filepath_Join [b, t])) = clean_elems True L"
    using split_join [OF L_ne L_sep] by (simp add: j clean_elems_def)
  have Lb_pre: "clean_elems True pre = Lb"
    by (simp add: pre_def Lb_def clean_elems_def)
  have et: "\<forall>x \<in> set (elems t). normal x"
    using elems_normal [OF assms(2)] by blast
  have "clean_elems True L = Lb @ elems t"
  proof -
    have "foldl (clean_step True) [] L
            = foldl (clean_step True) (foldl (clean_step True) [] (clean_elems rt pre)) (elems t)"
      by (simp add: L_def)
    also have "foldl (clean_step True) [] (clean_elems rt pre) = foldl (clean_step True) [] pre"
      unfolding clean_elems_def by (rule reclean_rooted)
    also have "foldl (clean_step True) (foldl (clean_step True) [] pre) (elems t)
                 = rev (elems t) @ foldl (clean_step True) [] pre"
      using et by (rule clean_fold_normals)
    finally show ?thesis
      using Lb_pre by (simp add: clean_elems_def)
  qed
  with split_j have ct: "filepath_Clean (CHR ''/'' # filepath_Join [b, t])
                           = CHR ''/'' # join_sep (Lb @ elems t)"
    by (simp add: Clean_slash_Cons)
  have cb: "filepath_Clean (CHR ''/'' # b) = CHR ''/'' # join_sep Lb"
    by (simp add: Clean_slash_Cons Lb_def)
  have Lb_ok: "\<forall>x \<in> set Lb. x \<noteq> [] \<and> CHR ''/'' \<notin> set x"
    using clean_elems_rooted_normal [of _ "split_sep b"] clean_elems_no_sep [of _ True b]
    by (fastforce simp: Lb_def)
  have et_ok: "\<forall>x \<in> set (elems t). x \<noteq> [] \<and> CHR ''/'' \<notin> set x"
    using elems_nonempty [of _ t] elems_no_sep [of _ t] by blast
  have neq: "join_sep (Lb @ elems t) \<noteq> join_sep Lb"
    using Lb_ok et_ok assms(3) by (intro join_sep_append_neq) auto
  have loop: "rel_loop (join_sep Lb) (join_sep (Lb @ elems t)) = ([], [], join_sep (elems t))"
    using Lb_ok et_ok assms(3) by (intro rel_loop_common) auto
  show ?thesis
    using neq by (simp add: filepath_Rel_def cb ct Let_def rel_loop_slash loop)
qed

lemma Clean_abs_elems:
  assumes "filepath_IsAbs t" "\<not> escapes t"
  shows "filepath_Clean t = CHR ''/'' # join_sep (elems t)"
  using assms by (simp add: Clean_rooted clean_elems_rooted_eq)

section \<open>Stat\<close>

lemma Base_Clean_last:
  assumes "\<not> escapes p" "elems p \<noteq> []"
  shows "filepath_Base (filepath_Clean p) = last (elems p)"
proof -
  from assms(2) have "p \<noteq> []" by auto
  then have "filepath_Join [[], p] = filepath_Clean p" by (simp add: Join_two)
  with Base_Join_last [OF assms, of "[]"] show ?thesis by simp
qed

lemma Stat_Inr:
  "Stat s p st = (Inr fi, st') \<longleftrightarrow>
     (\<exists>ufi. fs_Stat (underlying s) (underlyingPath s p) st = (Inr ufi, st')
        \<and> fi = newFileInfo (filepath_Base (underlyingPath s p)) ufi)"
  by (auto simp: Stat_def Let_def split: prod.splits sum.splits)

lemma underlyingPath_Join:
  "fs_Join (underlying s) = filepath_Join \<Longrightarrow> underlyingPath s p = filepath_Join [base s, p]"
  by (simp add: underlyingPath_def Join_def Base_def)

lemma example_Stat:
  "Stat (New example_fs ''project'') ''/docs'' empty_storage =
     (Inr (fileInfo ''docs'' (entry ''docs'' 0 True)), \<lparr>links = [], calls = 1\<rparr>)"
  "Stat (New example_fs ''project'') [] empty_storage =
     (Inr (fileInfo ''project'' (entry ''project'' 0 True)), \<lparr>links = [], calls = 1\<rparr>)"
  "Stat (New example_fs ''project'') ''/'' empty_storage =
     (Inr (fileInfo ''project'' (entry ''project'' 0 True)), \<lparr>links = [], calls = 1\<rparr>)"
  by code_simp+

lemma example_elems:
  "elems ''/docs'' = [''docs'']" "\<not> escapes ''/docs''" "elems [] = []" "\<not> escapes []"
  "filepath_Base [] = ''.''" "filepath_Base ''/'' = ''/''" "\<not> escapes ''/''"
  "filepath_Clean ''/docs'' = ''/docs''"
  by code_simp+

text \<open>
  C2, as amended. Let the underlying filesystem join paths with \<open>filepath.Join\<close>, let \<open>p\<close>
  not use \<open>..\<close> to escape, and let \<open>Stat\<close> succeed on \<open>p\<close>. If cleaning \<open>p\<close> leaves at least
  one element, the reported name is the last of these elements, which is
  \<open>filepath.Base(filepath.Clean(p))\<close>, whatever the base is. If cleaning \<open>p\<close> leaves no
  element (\<open>p\<close> is empty, \<open>/\<close> or \<open>.\<close>: the root of the view) and the base is not empty, the
  reported name is the last element of the cleaned base.
\<close>

theorem Stat_name:
  assumes "fs_Join (underlying s) = filepath_Join"
    and "Stat s p st = (Inr fi, st')"
    and "\<not> escapes p"
  shows "(elems p \<noteq> [] \<longrightarrow>
            Name fi = last (elems p) \<and> Name fi = filepath_Base (filepath_Clean p))
       \<and> (elems p = [] \<and> base s \<noteq> [] \<longrightarrow>
            Name fi = filepath_Base (filepath_Clean (base s)))"
proof -
  from assms(2) have n: "Name fi = filepath_Base (underlyingPath s p)"
    by (auto simp: Stat_Inr newFileInfo_def)
  have j: "underlyingPath s p = filepath_Join [base s, p]"
    using assms(1) by (rule underlyingPath_Join)
  have "Name fi = last (elems p)" if "elems p \<noteq> []"
    using Base_Join_last [OF assms(3) that] n j by simp
  moreover have "Name fi = filepath_Base (filepath_Clean (base s))"
    if "elems p = []" "base s \<noteq> []"
    using Join_root [OF that] n j by simp
  ultimately show ?thesis
    using Base_Clean_last [OF assms(3)] by simp
qed

theorem Stat_name_witness:
  "fs_Join (underlying (New example_fs ''project'')) = filepath_Join
   \<and> Stat (New example_fs ''project'') ''/docs'' empty_storage =
       (Inr (fileInfo ''docs'' (entry ''docs'' 0 True)), \<lparr>links = [], calls = 1\<rparr>)
   \<and> \<not> escapes ''/docs'' \<and> elems ''/docs'' \<noteq> []
   \<and> Name (fileInfo ''docs'' (entry ''docs'' 0 True)) = last (elems ''/docs'')
   \<and> Name (fileInfo ''docs'' (entry ''docs'' 0 True)) = filepath_Base (filepath_Clean ''/docs'')
   \<and> Stat (New example_fs ''project'') [] empty_storage =
       (Inr (fileInfo ''project'' (entry ''project'' 0 True)), \<lparr>links = [], calls = 1\<rparr>)
   \<and> \<not> escapes [] \<and> elems [] = [] \<and> base (New example_fs ''project'') \<noteq> []
   \<and> Name (fileInfo ''project'' (entry ''project'' 0 True))
       = filepath_Base (filepath_Clean (base (New example_fs ''project'')))"
proof -
  have j: "fs_Join (underlying (New example_fs ''project'')) = filepath_Join"
    by (simp add: example_fs_def)
  from Stat_name [OF j example_Stat(1) example_elems(2)]
       Stat_name [OF j example_Stat(2) example_elems(4)]
  show ?thesis using j example_Stat(1,2) example_elems(1,2,3,4) by simp
qed

text \<open>
  The claim as the spec words it fails at the root of the view: with base \<open>project\<close>,
  \<open>Stat\<close> of the empty path and of \<open>/\<close> both report the name \<open>project\<close>, an element of the
  base, while the last element of the empty path is \<open>.\<close> and that of \<open>/\<close> is \<open>/\<close>.
\<close>

theorem Stat_name_root_counterexample:
  "Stat (New example_fs ''project'') [] empty_storage =
     (Inr (fileInfo ''project'' (entry ''project'' 0 True)), \<lparr>links = [], calls = 1\<rparr>)
   \<and> \<not> escapes []
   \<and> Name (fileInfo ''project'' (entry ''project'' 0 True)) = ''project''
   \<and> Name (fileInfo ''project'' (entry ''project'' 0 True)) \<noteq> filepath_Base []
   \<and> Stat (New example_fs ''project'') ''/'' empty_storage =
     (Inr (fileInfo ''project'' (entry ''project'' 0 True)), \<lparr>links = [], calls = 1\<rparr>)
   \<and> \<not> escapes ''/''
   \<and> Name (fileInfo ''project'' (entry ''project'' 0 True)) \<noteq> filepath_Base ''/''"
  using example_Stat(2,3) example_elems(4,5,6,7) by simp

section \<open>Symlink followed by Readlink\<close>

lemma example_roundtrip:
  "Symlink (New example_fs ''project'') ''/docs/a'' ''link'' empty_storage =
     (Inr (), \<lparr>links = [(''project/link'', ''/project/docs/a'')], calls = 1\<rparr>)"
  "fst (Readlink (New example_fs ''project'') ''link''
          \<lparr>links = [(''project/link'', ''/project/docs/a'')], calls = 1\<rparr>) = Inr ''/docs/a''"
  "Symlink (New example_fs ''project'') ''/docs/'' ''link'' empty_storage =
     (Inr (), \<lparr>links = [(''project/link'', ''/project/docs'')], calls = 1\<rparr>)"
  "fst (Readlink (New example_fs ''project'') ''link''
          \<lparr>links = [(''project/link'', ''/project/docs'')], calls = 1\<rparr>) = Inr ''/docs''"
  "Symlink (New example_fs ''project'') ''/'' ''link'' empty_storage =
     (Inr (), \<lparr>links = [(''project/link'', ''/project'')], calls = 1\<rparr>)"
  "fst (Readlink (New example_fs ''project'') ''link''
          \<lparr>links = [(''project/link'', ''/project'')], calls = 1\<rparr>) = Inr ''/.''"
  by code_simp+

lemma example_symlinker_verbatim:
  "sl_Symlink example_symlinker old new st = (Inr (), st')
     \<Longrightarrow> fst (sl_Readlink example_symlinker new st') = Inr old"
  by (auto simp: example_symlinker_def tick_def)

lemma example_escapes: "\<not> escapes ''/docs/''"
  by code_simp

text \<open>
  C6, as amended. Let the underlying filesystem join paths with \<open>filepath.Join\<close>, have the
  symlink capability and return from \<open>Readlink\<close> the target that \<open>Symlink\<close> stored, verbatim.
  Let \<open>t\<close> be an absolute target that does not use \<open>..\<close> to escape and is not the root
  itself. If \<open>Symlink s t link\<close> succeeds, \<open>Readlink s link\<close> in the state it leaves returns
  the absolute path \<open>filepath.Clean(t)\<close>, whatever the base is: this is \<open>t\<close> itself exactly
  when \<open>t\<close> is written in clean form.
\<close>

theorem Symlink_Readlink_roundtrip:
  assumes "fs_Join (underlying s) = filepath_Join"
    and "fs_symlinker (underlying s) = Some fs"
    and "\<forall>old new st st'. sl_Symlink fs old new st = (Inr (), st')
           \<longrightarrow> fst (sl_Readlink fs new st') = Inr old"
    and "filepath_IsAbs t" "\<not> escapes t" "filepath_Clean t \<noteq> ''/''"
    and "Symlink s t link st = (Inr (), st1)"
  shows "fst (Readlink s link st1) = Inr (filepath_Clean t)"
proof -
  have c: "filepath_Clean t = CHR ''/'' # join_sep (elems t)"
    using assms(4,5) by (rule Clean_abs_elems)
  with assms(6) have e: "elems t \<noteq> []" by auto
  have up: "underlyingPath s t = filepath_Join [base s, t]"
    using assms(1) by (rule underlyingPath_Join)
  from assms(7) have "sl_Symlink fs (CHR ''/'' # underlyingPath s t) (underlyingPath s link) st
                        = (Inr (), st1)"
    using assms(2,4) by (simp add: Symlink_def Let_def)
  with assms(3) have "fst (sl_Readlink fs (underlyingPath s link) st1)
                        = Inr (CHR ''/'' # underlyingPath s t)"
    by blast
  then obtain st2 where rl: "sl_Readlink fs (underlyingPath s link) st1
                        = (Inr (CHR ''/'' # filepath_Join [base s, t]), st2)"
    using up by (cases "sl_Readlink fs (underlyingPath s link) st1") auto
  have "filepath_Rel (CHR ''/'' # base s) (CHR ''/'' # filepath_Join [base s, t])
          = Inr (join_sep (elems t))"
    using assms(4,5) e by (rule Rel_Join)
  then show ?thesis
    using assms(2) rl c by (simp add: Readlink_def Let_def)
qed

theorem Symlink_Readlink_roundtrip_witness:
  "fs_Join (underlying (New example_fs ''project'')) = filepath_Join
   \<and> fs_symlinker (underlying (New example_fs ''project'')) = Some example_symlinker
   \<and> filepath_IsAbs ''/docs/a'' \<and> \<not> escapes ''/docs/a'' \<and> filepath_Clean ''/docs/a'' \<noteq> ''/''
   \<and> Symlink (New example_fs ''project'') ''/docs/a'' ''link'' empty_storage =
       (Inr (), \<lparr>links = [(''project/link'', ''/project/docs/a'')], calls = 1\<rparr>)
   \<and> fst (Readlink (New example_fs ''project'') ''link''
            \<lparr>links = [(''project/link'', ''/project/docs/a'')], calls = 1\<rparr>) = Inr ''/docs/a''"
proof -
  have j: "fs_Join (underlying (New example_fs ''project'')) = filepath_Join"
    and sl: "fs_symlinker (underlying (New example_fs ''project'')) = Some example_symlinker"
    by (simp_all add: example_fs_def)
  have v: "\<forall>old new st st'. sl_Symlink example_symlinker old new st = (Inr (), st')
           \<longrightarrow> fst (sl_Readlink example_symlinker new st') = Inr old"
    using example_symlinker_verbatim by blast
  have t: "filepath_IsAbs ''/docs/a''" "\<not> escapes ''/docs/a''"
    "filepath_Clean ''/docs/a'' \<noteq> ''/''" "filepath_Clean ''/docs/a'' = ''/docs/a''"
    by code_simp+
  from Symlink_Readlink_roundtrip [OF j sl v t(1,2,3) example_roundtrip(1)]
  show ?thesis using j sl t example_roundtrip(1) by simp
qed

text \<open>
  The claim as the spec words it fails on a target that is not in clean form: the target
  \<open>/docs/\<close> lies inside the base and comes back as \<open>/docs\<close>.
\<close>

theorem Symlink_Readlink_roundtrip_counterexample:
  "filepath_IsAbs ''/docs/'' \<and> \<not> escapes ''/docs/''
   \<and> Symlink (New example_fs ''project'') ''/docs/'' ''link'' empty_storage =
       (Inr (), \<lparr>links = [(''project/link'', ''/project/docs'')], calls = 1\<rparr>)
   \<and> fst (Readlink (New example_fs ''project'') ''link''
            \<lparr>links = [(''project/link'', ''/project/docs'')], calls = 1\<rparr>) = Inr ''/docs''
   \<and> fst (Readlink (New example_fs ''project'') ''link''
            \<lparr>links = [(''project/link'', ''/project/docs'')], calls = 1\<rparr>) \<noteq> Inr ''/docs/''"
  using example_roundtrip(3,4) example_escapes by simp

section \<open>Errors\<close>

lemma Create_Inl:
  "Create s filename st = (Inl err, st') \<longleftrightarrow>
     fs_Create (underlying s) (underlyingPath s filename) st = (Inl err, st')"
  by (auto simp: Create_def split: prod.splits sum.splits)

lemma Open_Inl:
  "Open s filename st = (Inl err, st') \<longleftrightarrow>
     fs_Open (underlying s) (underlyingPath s filename) st = (Inl err, st')"
  by (auto simp: Open_def split: prod.splits sum.splits)

lemma OpenFile_Inl:
  "OpenFile s filename flag mode st = (Inl err, st') \<longleftrightarrow>
     fs_OpenFile (underlying s) (underlyingPath s filename) flag mode st = (Inl err, st')"
  by (auto simp: OpenFile_def split: prod.splits sum.splits)

lemma TempFile_Inl:
  "TempFile s dir prefix st = (Inl err, st') \<longleftrightarrow>
     fs_TempFile (underlying s) (underlyingPath s dir) prefix st = (Inl err, st')"
  by (auto simp: TempFile_def split: prod.splits sum.splits)

lemma Rename_Inl:
  "Rename s from to st = (Inl err, st') \<longleftrightarrow>
     fs_Rename (underlying s) (underlyingPath s from) (underlyingPath s to) st = (Inl err, st')"
  by (simp add: Rename_def)

lemma Remove_Inl:
  "Remove s path st = (Inl err, st') \<longleftrightarrow>
     fs_Remove (underlying s) (underlyingPath s path) st = (Inl err, st')"
  by (simp add: Remove_def)

lemma MkdirAll_Inl:
  "MkdirAll s filename perm st = (Inl err, st') \<longleftrightarrow>
     fs_MkdirAll (underlying s) (underlyingPath s filename) perm st = (Inl err, st')"
  by (simp add: MkdirAll_def Let_def underlyingPath_def Base_def)

lemma Stat_Inl:
  "Stat s filename st = (Inl err, st') \<longleftrightarrow>
     fs_Stat (underlying s) (underlyingPath s filename) st = (Inl err, st')"
  by (auto simp: Stat_def Let_def split: prod.splits sum.splits)

lemma ReadDir_Inl:
  "ReadDir s path st = (Inl err, st') \<longleftrightarrow>
     fs_ReadDir (underlying s) (underlyingPath s path) st = (Inl err, st')"
  by (auto simp: ReadDir_def Let_def split: prod.splits sum.splits)

lemma Symlink_Inl:
  "Symlink s oldname newname st = (Inl err, st') \<longleftrightarrow>
     (case fs_symlinker (underlying s) of
        None \<Rightarrow> err = ErrSymlinkNotSupported \<and> st' = st
      | Some fs \<Rightarrow>
          sl_Symlink fs
            (if filepath_IsAbs oldname then CHR ''/'' # underlyingPath s oldname
             else oldname)
            (underlyingPath s newname) st = (Inl err, st'))"
  by (auto simp: Symlink_def Let_def split: option.splits)

lemma Readlink_Inl:
  "Readlink s name st = (Inl err, st') \<longleftrightarrow>
     (case fs_symlinker (underlying s) of
        None \<Rightarrow> err = ErrSymlinkNotSupported \<and> st' = st
      | Some fs \<Rightarrow> sl_Readlink fs (underlyingPath s name) st = (Inl err, st'))"
proof (cases "fs_symlinker (underlying s)")
  case None
  then show ?thesis by (auto simp: Readlink_def)
next
  case (Some fs)
  obtain r st2 where r: "sl_Readlink fs (underlyingPath s name) st = (r, st2)"
    by (cases "sl_Readlink fs (underlyingPath s name) st") auto
  show ?thesis
  proof (cases r)
    case (Inl e)
    with Some r show ?thesis by (auto simp: Readlink_def Let_def)
  next
    case (Inr target)
    show ?thesis
    proof (cases "filepath_IsAbs target")
      case True
      from Rel_rooted_total [OF True, of "base s"] obtain rel where
        "filepath_Rel (CHR ''/'' # base s) target = Inr rel" by blast
      with Some r Inr True show ?thesis by (simp add: Readlink_def Let_def)
    next
      case False
      with Some r Inr show ?thesis by (simp add: Readlink_def Let_def)
    qed
  qed
qed

lemma example_failures:
  "fs_Create (underlying (New example_fs ''project''))
      (underlyingPath (New example_fs ''project'') ''docs'') empty_storage
     = (Inl (Backend ErrExist), \<lparr>links = [], calls = 1\<rparr>)"
  "fs_Stat (underlying (New example_fs ''project''))
      (underlyingPath (New example_fs ''project'') ''pro'') empty_storage
     = (Inl (Backend ErrNotExist), \<lparr>links = [], calls = 1\<rparr>)"
  "sl_Readlink example_symlinker
      (underlyingPath (New example_fs ''project'') ''nolink'') empty_storage
     = (Inl (Backend ErrNotExist), \<lparr>links = [], calls = 1\<rparr>)"
  by code_simp+

lemma example_capability:
  "fs_symlinker (underlying (New example_fs ''project'')) = Some example_symlinker"
  "fs_symlinker (underlying (New example_fs_plain ''project'')) = None"
  by (simp_all add: example_fs_def example_fs_plain_def)

text \<open>
  C9. For each operation of the view, the operation fails with error \<open>err\<close> and final
  state \<open>st'\<close> exactly when its one underlying call, on the translated arguments, fails
  with that same error \<open>err\<close> and leaves \<open>st'\<close>: the error is the underlying filesystem's,
  unmodified and unwrapped, and a failure carries no handle and no metadata. The only
  other failure is that of \<open>Symlink\<close> and \<open>Readlink\<close> without the capability, which is
  \<open>ErrSymlinkNotSupported\<close> with the state untouched. In particular \<open>Readlink\<close> never fails
  through \<open>filepath.Rel\<close>.
\<close>

theorem errors_pass_through:
  "(Create s filename st = (Inl err, st') \<longleftrightarrow>
      fs_Create (underlying s) (underlyingPath s filename) st = (Inl err, st'))
 \<and> (Open s filename st = (Inl err, st') \<longleftrightarrow>
      fs_Open (underlying s) (underlyingPath s filename) st = (Inl err, st'))
 \<and> (OpenFile s filename flag mode st = (Inl err, st') \<longleftrightarrow>
      fs_OpenFile (underlying s) (underlyingPath s filename) flag mode st = (Inl err, st'))
 \<and> (TempFile s dir prefix st = (Inl err, st') \<longleftrightarrow>
      fs_TempFile (underlying s) (underlyingPath s dir) prefix st = (Inl err, st'))
 \<and> (Rename s from to st = (Inl err, st') \<longleftrightarrow>
      fs_Rename (underlying s) (underlyingPath s from) (underlyingPath s to) st
        = (Inl err, st'))
 \<and> (Remove s path st = (Inl err, st') \<longleftrightarrow>
      fs_Remove (underlying s) (underlyingPath s path) st = (Inl err, st'))
 \<and> (MkdirAll s filename perm st = (Inl err, st') \<longleftrightarrow>
      fs_MkdirAll (underlying s) (underlyingPath s filename) perm st = (Inl err, st'))
 \<and> (Stat s filename st = (Inl err, st') \<longleftrightarrow>
      fs_Stat (underlying s) (underlyingPath s filename) st = (Inl err, st'))
 \<and> (ReadDir s path st = (Inl err, st') \<longleftrightarrow>
      fs_ReadDir (underlying s) (underlyingPath s path) st = (Inl err, st'))
 \<and> (Symlink s oldname newname st = (Inl err, st') \<longleftrightarrow>
      (case fs_symlinker (underlying s) of
         None \<Rightarrow> err = ErrSymlinkNotSupported \<and> st' = st
       | Some fs \<Rightarrow>
           sl_Symlink fs
             (if filepath_IsAbs oldname then CHR ''/'' # underlyingPath s oldname
              else oldname)
             (underlyingPath s newname) st = (Inl err, st')))
 \<and> (Readlink s name st = (Inl err, st') \<longleftrightarrow>
      (case fs_symlinker (underlying s) of
         None \<Rightarrow> err = ErrSymlinkNotSupported \<and> st' = st
       | Some fs \<Rightarrow> sl_Readlink fs (underlyingPath s name) st = (Inl err, st')))"
  by (intro conjI)
     (rule Create_Inl Open_Inl OpenFile_Inl TempFile_Inl Rename_Inl Remove_Inl MkdirAll_Inl
           Stat_Inl ReadDir_Inl Symlink_Inl Readlink_Inl)+

theorem errors_pass_through_witness:
  "fs_Create (underlying (New example_fs ''project''))
      (underlyingPath (New example_fs ''project'') ''docs'') empty_storage
     = (Inl (Backend ErrExist), \<lparr>links = [], calls = 1\<rparr>)
   \<and> Create (New example_fs ''project'') ''docs'' empty_storage
     = (Inl (Backend ErrExist), \<lparr>links = [], calls = 1\<rparr>)
   \<and> fs_Stat (underlying (New example_fs ''project''))
      (underlyingPath (New example_fs ''project'') ''pro'') empty_storage
     = (Inl (Backend ErrNotExist), \<lparr>links = [], calls = 1\<rparr>)
   \<and> Stat (New example_fs ''project'') ''pro'' empty_storage
     = (Inl (Backend ErrNotExist), \<lparr>links = [], calls = 1\<rparr>)
   \<and> Readlink (New example_fs ''project'') ''nolink'' empty_storage
     = (Inl (Backend ErrNotExist), \<lparr>links = [], calls = 1\<rparr>)
   \<and> Symlink (New example_fs_plain ''project'') ''docs'' ''link'' empty_storage
     = (Inl ErrSymlinkNotSupported, empty_storage)"
proof -
  have "Create (New example_fs ''project'') ''docs'' empty_storage
          = (Inl (Backend ErrExist), \<lparr>links = [], calls = 1\<rparr>)"
    using errors_pass_through [where s = "New example_fs ''project''" and filename = "''docs''"
        and st = empty_storage and err = "Backend ErrExist"
        and st' = "\<lparr>links = [], calls = 1\<rparr>"]
      example_failures(1)
    by blast
  moreover have "Stat (New example_fs ''project'') ''pro'' empty_storage
          = (Inl (Backend ErrNotExist), \<lparr>links = [], calls = 1\<rparr>)"
    using errors_pass_through [where s = "New example_fs ''project''" and filename = "''pro''"
        and st = empty_storage and err = "Backend ErrNotExist"
        and st' = "\<lparr>links = [], calls = 1\<rparr>"]
      example_failures(2)
    by blast
  moreover have "Readlink (New example_fs ''project'') ''nolink'' empty_storage
          = (Inl (Backend ErrNotExist), \<lparr>links = [], calls = 1\<rparr>)"
    using errors_pass_through [where s = "New example_fs ''project''" and name = "''nolink''"
        and st = empty_storage and err = "Backend ErrNotExist"
        and st' = "\<lparr>links = [], calls = 1\<rparr>"]
      example_failures(3) example_capability(1)
    by simp
  moreover have "Symlink (New example_fs_plain ''project'') ''docs'' ''link'' empty_storage
          = (Inl ErrSymlinkNotSupported, empty_storage)"
    using errors_pass_through [where s = "New example_fs_plain ''project''"
        and oldname = "''docs''" and newname = "''link''"
        and st = empty_storage and err = ErrSymlinkNotSupported and st' = empty_storage]
      example_capability(2)
    by simp
  ultimately show ?thesis
    using example_failures(1,2) by simp
qed

end
